theory Spec2Isabelle
  imports Main
begin

section \<open>Data model (research/db/db\_requests.py)\<close>

text \<open>
  Python's \<open>datetime\<close> has microsecond resolution: a point in time is the number of
  microseconds since a fixed epoch, a \<open>timedelta\<close> a number of microseconds, and a
  \<open>date\<close> the number of whole days. Every call of \<open>datetime.now()\<close> inside one
  function is read as the same instant, which the caller passes in.
\<close>

type_synonym time = int
type_synonym day = int

definition seconds :: "int \<Rightarrow> int" where
  "seconds s = s * 1000000"

definition hours :: "int \<Rightarrow> int" where
  "hours h = h * 3600000000"

definition days :: "int \<Rightarrow> int" where
  "days n = n * 86400000000"

definition date_of :: "time \<Rightarrow> day" where
  "date_of t = t div 86400000000"

text \<open>Row of table \<open>premium_purchases\<close>.\<close>

record purchase =
  p_user_id :: int
  purchase_date :: day
  expiration_date :: day
  targets_increment :: int
  request_increment :: int

text \<open>
  Row of table \<open>users\<close>. The column \<open>mode\<close> is declared Integer but receives the
  callback data of a button and the path of an uploaded target, so it is a string here.
  \<open>receive_target_flag\<close> is the integer the code stores; Python reads it as true when
  it is not 0.
\<close>

record user =
  user_id :: int
  username :: string
  first_name :: string
  last_name :: string
  mode :: string
  receive_target_flag :: int
  status :: string
  requests_left :: int
  targets_left :: int
  last_photo_sent_timestamp :: time
  premium_expiration :: "day option"

text \<open>Row of table \<open>image_names\<close>; \<open>output_image_names\<close> is \<open>None\<close> or the joined names.\<close>

record image_name =
  img_user_id :: int
  input_image_name :: string
  output_image_names :: "string option"
  img_timestamp :: time

text \<open>Row of table \<open>scheduler_logs\<close>.\<close>

record scheduler_log =
  job_name :: string
  run_datetime :: time
  log_status :: string
  details :: "string option"

text \<open>The database: one list of rows per table, in insertion order.\<close>

record db =
  users :: "user list"
  premium_purchases :: "purchase list"
  image_names :: "image_name list"
  scheduler_logs :: "scheduler_log list"

definition empty_db :: db where
  "empty_db = \<lparr>users = [], premium_purchases = [], image_names = [], scheduler_logs = []\<rparr>"

text \<open>
  \<open>select(User).filter_by(user_id=...)\<close> with \<open>scalar_one_or_none()\<close>: the row with
  that Telegram id, if any (the column is unique).
\<close>

fun find_user :: "user list \<Rightarrow> int \<Rightarrow> user option" where
  "find_user [] uid = None"
| "find_user (u # us) uid = (if user_id u = uid then Some u else find_user us uid)"

text \<open>Writing the attributes of the selected row back on commit.\<close>

fun update_user :: "(user \<Rightarrow> user) \<Rightarrow> int \<Rightarrow> user list \<Rightarrow> user list" where
  "update_user f uid [] = []"
| "update_user f uid (u # us) =
     (if user_id u = uid then f u # us else u # update_user f uid us)"

section \<open>Quota ledger\<close>

text \<open>
  \<open>str.replace(' ', '_')\<close> on the three names of \<open>insert_user\<close>.
\<close>

definition underscore :: "string \<Rightarrow> string" where
  "underscore s = map (\<lambda>c. if c = CHR '' '' then CHR ''_'' else c) s"

text \<open>
  \<open>insert_user\<close>: a new row with the column defaults, or the names of the existing row
  updated. The default of \<open>last_photo_sent_timestamp\<close> is \<open>datetime.now()\<close> evaluated
  once when the module is loaded, here \<open>boot\<close>.
\<close>

definition insert_user :: "time \<Rightarrow> db \<Rightarrow> int \<Rightarrow> string \<Rightarrow> string \<Rightarrow> string \<Rightarrow> db" where
  "insert_user boot d uid uname fname lname =
     (case find_user (users d) uid of
        None \<Rightarrow>
          d\<lparr>users := users d @
            [\<lparr>user_id = uid, username = underscore uname, first_name = underscore fname,
              last_name = underscore lname, mode = ''1'', receive_target_flag = 0,
              status = ''free'', requests_left = 10, targets_left = 0,
              last_photo_sent_timestamp = boot, premium_expiration = None\<rparr>]\<rparr>
      | Some existing_user \<Rightarrow>
          d\<lparr>users := update_user
            (\<lambda>u. u\<lparr>username := underscore uname, first_name := underscore fname,
                    last_name := underscore lname\<rparr>) uid (users d)\<rparr>)"

definition update_user_mode :: "db \<Rightarrow> int \<Rightarrow> string \<Rightarrow> db" where
  "update_user_mode d uid m = d\<lparr>users := update_user (\<lambda>u. u\<lparr>mode := m\<rparr>) uid (users d)\<rparr>"

text \<open>
  \<open>decrement_requests_left\<close>. The Python function is annotated \<open>-> None\<close> and has no
  \<open>return\<close> statement: the second component is the value it returns, \<open>None\<close> on
  every path.
\<close>

definition decrement_requests_left :: "db \<Rightarrow> int \<Rightarrow> int \<Rightarrow> db \<times> int option" where
  "decrement_requests_left d uid n =
     (d\<lparr>users := update_user
        (\<lambda>u. if requests_left u > 0
              then u\<lparr>requests_left := max 0 (requests_left u - n)\<rparr>
              else u\<lparr>requests_left := 0\<rparr>) uid (users d)\<rparr>,
      None)"

definition decrement_targets_left :: "db \<Rightarrow> int \<Rightarrow> int \<Rightarrow> db" where
  "decrement_targets_left d uid n =
     d\<lparr>users := update_user
        (\<lambda>u. if targets_left u > 0
              then u\<lparr>targets_left := max 0 (targets_left u - n)\<rparr>
              else u) uid (users d)\<rparr>"

text \<open>The exceptions of the ledger functions.\<close>

datatype error = TypeError

text \<open>
  \<open>set_requests_left\<close>. For an existing user the function sets \<open>status\<close> and
  \<open>premium_expiration\<close> on the loaded object and then assigns \<open>None\<close> to
  \<open>user.premium_purchases\<close>. That attribute is a collection relationship, and assigning
  \<open>None\<close> to it raises \<open>TypeError\<close>; the exception leaves the \<open>session.begin()\<close>
  block, the transaction is rolled back, and nothing is written: \<open>Inl TypeError\<close>, with
  the database as it was. For a user that does not exist the function commits nothing and
  returns.
\<close>

definition set_requests_left :: "db \<Rightarrow> int \<Rightarrow> int \<Rightarrow> error + db" where
  "set_requests_left d uid number =
     (case find_user (users d) uid of
        None \<Rightarrow> Inr d
      | Some usr \<Rightarrow> Inl TypeError)"

text \<open>
  \<open>buy_premium\<close>; \<open>premium_days\<close> is the constant \<open>PREMIUM_DAYS\<close> of
  bot/handlers/constants, which is not part of the sources at hand. The column
  \<open>premium_expiration\<close> is a Date and keeps the day of the datetime assigned to it.
\<close>

definition buy_premium :: "int \<Rightarrow> time \<Rightarrow> db \<Rightarrow> int \<Rightarrow> db" where
  "buy_premium premium_days now d uid =
     (case find_user (users d) uid of
        None \<Rightarrow> d
      | Some usr \<Rightarrow>
          (let new_expiration_date = now + days premium_days;
               new_premium = \<lparr>p_user_id = user_id usr, purchase_date = date_of now,
                              expiration_date = date_of new_expiration_date,
                              targets_increment = 10, request_increment = 100\<rparr>
           in d\<lparr>users := update_user
                  (\<lambda>u. u\<lparr>requests_left := requests_left u + 100,
                          targets_left := targets_left u + 10,
                          status := ''premium'',
                          premium_expiration := Some (date_of new_expiration_date)\<rparr>)
                  uid (users d),
                premium_purchases := premium_purchases d @ [new_premium]\<rparr>))"

definition update_photo_timestamp :: "db \<Rightarrow> int \<Rightarrow> time \<Rightarrow> db" where
  "update_photo_timestamp d uid t =
     d\<lparr>users := update_user (\<lambda>u. u\<lparr>last_photo_sent_timestamp := t\<rparr>) uid (users d)\<rparr>"

definition toggle_receive_target_flag :: "db \<Rightarrow> int \<Rightarrow> int \<Rightarrow> db" where
  "toggle_receive_target_flag d uid flag =
     d\<lparr>users := update_user (\<lambda>u. u\<lparr>receive_target_flag := flag\<rparr>) uid (users d)\<rparr>"

section \<open>Scheduled reconciliation\<close>

text \<open>
  The rows of \<open>premium_purchases\<close> that the job selects for one user: those stored
  under the user's Telegram id whose expiration date is not before today.
\<close>

definition active_purchases :: "day \<Rightarrow> purchase list \<Rightarrow> int \<Rightarrow> purchase list" where
  "active_purchases today ps uid =
     filter (\<lambda>p. p_user_id p = uid \<and> expiration_date p \<ge> today) ps"

text \<open>The \<open>delete\<close> statement of the job for one user.\<close>

definition delete_expired :: "day \<Rightarrow> purchase list \<Rightarrow> int \<Rightarrow> purchase list" where
  "delete_expired today ps uid =
     filter (\<lambda>p. \<not> (p_user_id p = uid \<and> expiration_date p < today)) ps"

text \<open>
  The two branches of the loop body of \<open>update_user_quotas\<close>: the reconciliation rule
  for one user, from the purchases found active.
\<close>

definition recompute :: "int \<Rightarrow> purchase list \<Rightarrow> user \<Rightarrow> user" where
  "recompute free_requests active usr =
     (if active \<noteq> []
      then usr\<lparr>requests_left := sum_list (map request_increment active),
               targets_left := sum_list (map targets_increment active)\<rparr>
      else usr\<lparr>status := ''free'', requests_left := free_requests,
               premium_expiration := None\<rparr>)"

text \<open>The loop over all users: delete the user's expired purchases, select, update.\<close>

fun sweep :: "int \<Rightarrow> day \<Rightarrow> user list \<Rightarrow> purchase list \<Rightarrow> user list \<times> purchase list" where
  "sweep free_requests today [] ps = ([], ps)"
| "sweep free_requests today (u # us) ps =
     (let ps1 = delete_expired today ps (user_id u);
          u1 = recompute free_requests (active_purchases today ps1 (user_id u)) u;
          (us1, ps2) = sweep free_requests today us ps1
      in (u1 # us1, ps2))"

text \<open>
  The newest row of \<open>scheduler_logs\<close> for a job
  (\<open>order_by(desc(run_datetime)).limit(1)\<close>).
\<close>

definition last_entry :: "scheduler_log list \<Rightarrow> string \<Rightarrow> scheduler_log option" where
  "last_entry logs job =
     (case filter (\<lambda>l. job_name l = job) logs of
        [] \<Rightarrow> None
      | l # ls \<Rightarrow> Some (fold (\<lambda>a b. if run_datetime b < run_datetime a then a else b) ls l))"

text \<open>
  The column default of \<open>run_datetime\<close> is \<open>server_default=func.now()\<close>: the row
  gets the \<open>CURRENT_TIMESTAMP\<close> of the database, which is UTC in whole seconds, while
  \<open>datetime.now()\<close> is local time with microseconds. \<open>utc_offset\<close> is local time minus
  UTC, in microseconds.
\<close>

definition current_timestamp :: "int \<Rightarrow> time \<Rightarrow> time" where
  "current_timestamp utc_offset now = ((now - utc_offset) div 1000000) * 1000000"

text \<open>
  \<open>log_scheduler_run\<close>: a new row, unless the local time of the call minus the stored
  \<open>run_datetime\<close> of the job's last row is less than \<open>hour_delay\<close> hours. The call
  passes no \<open>run_datetime\<close>, so the new row takes the column default.
\<close>

definition log_scheduler_run ::
  "time \<Rightarrow> int \<Rightarrow> db \<Rightarrow> string \<Rightarrow> string \<Rightarrow> string option \<Rightarrow> int \<Rightarrow> db" where
  "log_scheduler_run now utc_offset d job st det hour_delay =
     (case last_entry (scheduler_logs d) job of
        None \<Rightarrow>
          d\<lparr>scheduler_logs := scheduler_logs d @
             [\<lparr>job_name = job, run_datetime = current_timestamp utc_offset now,
               log_status = st, details = det\<rparr>]\<rparr>
      | Some e \<Rightarrow>
          if now - run_datetime e \<ge> hours hour_delay
          then d\<lparr>scheduler_logs := scheduler_logs d @
             [\<lparr>job_name = job, run_datetime = current_timestamp utc_offset now,
               log_status = st, details = det\<rparr>]\<rparr>
          else d)"

text \<open>
  \<open>update_user_quotas\<close>; \<open>td\<close> defaults to the constant \<open>HOUR_INTERVAL\<close> of
  bot/handlers/constants, which its caller passes in here.
\<close>

definition update_user_quotas :: "time \<Rightarrow> int \<Rightarrow> db \<Rightarrow> int \<Rightarrow> int \<Rightarrow> db" where
  "update_user_quotas now utc_offset d free_requests td =
     (let (us, ps) = sweep free_requests (date_of now) (users d) (premium_purchases d)
      in log_scheduler_run now utc_offset (d\<lparr>users := us, premium_purchases := ps\<rparr>)
           ''update_user_quotas'' ''success'' (Some ''Completed updating user quotas'') td)"

section \<open>Sequences of ledger operations\<close>

text \<open>
  One constructor per function of the module that writes \<open>requests_left\<close> or
  \<open>targets_left\<close>, with its arguments and, where the function reads the clock, the
  time of the call. A call that raises leaves the database as it was before the call.
\<close>

datatype ledger_op =
    Insert_user int string string string
  | Decrement_requests_left int int
  | Decrement_targets_left int int
  | Set_requests_left int int
  | Buy_premium time int
  | Update_user_quotas time int int

fun apply_op :: "time \<Rightarrow> int \<Rightarrow> int \<Rightarrow> db \<Rightarrow> ledger_op \<Rightarrow> db" where
  "apply_op boot pd off d (Insert_user uid un fn ln) = insert_user boot d uid un fn ln"
| "apply_op boot pd off d (Decrement_requests_left uid n) =
     fst (decrement_requests_left d uid n)"
| "apply_op boot pd off d (Decrement_targets_left uid n) = decrement_targets_left d uid n"
| "apply_op boot pd off d (Set_requests_left uid number) =
     (case set_requests_left d uid number of Inl e \<Rightarrow> d | Inr d1 \<Rightarrow> d1)"
| "apply_op boot pd off d (Buy_premium now uid) = buy_premium pd now d uid"
| "apply_op boot pd off d (Update_user_quotas now free_requests td) =
     update_user_quotas now off d free_requests td"

fun apply_ops :: "time \<Rightarrow> int \<Rightarrow> int \<Rightarrow> db \<Rightarrow> ledger_op list \<Rightarrow> db" where
  "apply_ops boot pd off d [] = d"
| "apply_ops boot pd off d (x # xs) = apply_ops boot pd off (apply_op boot pd off d x) xs"

text \<open>The arguments the claim calls non-negative: the counts written into a quota.\<close>

fun nonneg_args :: "ledger_op \<Rightarrow> bool" where
  "nonneg_args (Decrement_requests_left uid n) = (0 \<le> n)"
| "nonneg_args (Decrement_targets_left uid n) = (0 \<le> n)"
| "nonneg_args (Set_requests_left uid number) = (0 \<le> number)"
| "nonneg_args (Update_user_quotas now free_requests td) = (0 \<le> free_requests)"
| "nonneg_args _ = True"

definition quotas_nonneg :: "db \<Rightarrow> bool" where
  "quotas_nonneg d =
     (list_all (\<lambda>u. 0 \<le> requests_left u \<and> 0 \<le> targets_left u) (users d))"

definition increments_nonneg :: "db \<Rightarrow> bool" where
  "increments_nonneg d =
     (list_all (\<lambda>p. 0 \<le> request_increment p \<and> 0 \<le> targets_increment p)
        (premium_purchases d))"

section \<open>Session state and request handling (bot/message\_handler.py)\<close>

text \<open>
  The handlers import their database functions from bot/db\_requests.py, which is not
  among the sources; the functions of the same names in research/db/db\_requests.py are
  used for them, \<open>exist_user_check\<close> on the sender of the message.
\<close>

record tg_user =
  tg_id :: int
  tg_username :: "string option"
  tg_first_name :: "string option"
  tg_last_name :: "string option"

record message =
  from_user :: tg_user
  media_group_id :: "string option"

text \<open>What a handler sends back; one constructor per message text of the source.\<close>

datatype reply =
    OutOfAttempts      \<comment> \<open>Sorry, you are out of attempts. Try again later\<close>
  | TooManyRequests int  \<comment> \<open>Sorry, too many requests. Please wait .. more seconds\<close>
  | ImageReceived      \<comment> \<open>Image received. Processing...\<close>
  | TargetUploaded     \<comment> \<open>Target image uploaded, send your source image\<close>
  | FailedDownload     \<comment> \<open>Failed to download image. Please try again\<close>
  | FailedProcess      \<comment> \<open>Failed to process image. Please try again\<close>
  | AttemptsLeft int   \<comment> \<open>You have .. attempts left\<close>
  | SorryError         \<comment> \<open>Sorry must have been an error. Try again later.\<close>
  | Photo string       \<comment> \<open>\<open>answer_photo\<close> of one output path\<close>
  | OneAtATime         \<comment> \<open>Please send one photo at a time.\<close>
  | ChangingSet        \<comment> \<open>Changing set to receiving a new target. Send target image.\<close>
  | NeedPremium        \<comment> \<open>You need to be a premium user for that. Use /buy\_premium function\<close>

definition or_empty :: "string option \<Rightarrow> string" where
  "or_empty s = (case s of None \<Rightarrow> [] | Some x \<Rightarrow> x)"

definition exist_user_check :: "time \<Rightarrow> db \<Rightarrow> tg_user \<Rightarrow> db" where
  "exist_user_check boot d tu =
     insert_user boot d (tg_id tu) (or_empty (tg_username tu))
       (or_empty (tg_first_name tu)) (or_empty (tg_last_name tu))"

definition fetch_user_data :: "db \<Rightarrow> int \<Rightarrow> user option" where
  "fetch_user_data d uid = find_user (users d) uid"

text \<open>
  Modelled from the spec: \<open>receive_user\<close> is defined in bot/db\_requests.py only; it is
  read as the lookup \<open>get_user(id) -> User|None\<close> of the repository interface.
\<close>

definition receive_user :: "db \<Rightarrow> int \<Rightarrow> user option" where
  "receive_user d uid = find_user (users d) uid"

definition create_image_entry :: "time \<Rightarrow> db \<Rightarrow> int \<Rightarrow> string \<Rightarrow> db" where
  "create_image_entry now d uid inp =
     d\<lparr>image_names := image_names d @
        [\<lparr>img_user_id = uid, input_image_name = inp, output_image_names = None,
          img_timestamp = now\<rparr>]\<rparr>"

definition log_input_image_data :: "time \<Rightarrow> time \<Rightarrow> db \<Rightarrow> message \<Rightarrow> string \<Rightarrow> db" where
  "log_input_image_data boot now d msg inp =
     create_image_entry now (exist_user_check boot d (from_user msg)) (tg_id (from_user msg)) inp"

text \<open>\<open>','.join(names)\<close>.\<close>

fun join_comma :: "string list \<Rightarrow> string" where
  "join_comma [] = []"
| "join_comma [x] = x"
| "join_comma (x # y # ys) = x @ '','' @ join_comma (y # ys)"

text \<open>
  \<open>update_image_entry\<close>. \<open>scalar_one_or_none()\<close> raises when more than one row has
  the user and the input name: \<open>None\<close> is that exception.
\<close>

definition update_image_entry :: "time \<Rightarrow> db \<Rightarrow> int \<Rightarrow> string \<Rightarrow> string list \<Rightarrow> db option" where
  "update_image_entry now d uid inp outs =
     (let str_outputs = (if outs \<noteq> [] then Some (join_comma outs) else None)
      in case filter (\<lambda>e. img_user_id e = uid \<and> input_image_name e = inp) (image_names d) of
           [] \<Rightarrow> Some d
         | [existing_entry] \<Rightarrow>
             Some (d\<lparr>image_names :=
               map (\<lambda>e. if img_user_id e = uid \<and> input_image_name e = inp
                         then e\<lparr>output_image_names := str_outputs, img_timestamp := now\<rparr>
                         else e) (image_names d)\<rparr>)
         | _ \<Rightarrow> None)"

definition log_output_image_data ::
  "time \<Rightarrow> time \<Rightarrow> db \<Rightarrow> message \<Rightarrow> string \<Rightarrow> string list \<Rightarrow> db option" where
  "log_output_image_data boot now d msg inp outs =
     update_image_entry now (exist_user_check boot d (from_user msg)) (tg_id (from_user msg))
       inp outs"

definition check_limit :: "user \<Rightarrow> bool \<times> reply list" where
  "check_limit usr =
     (if requests_left usr \<le> 0 then (False, [OutOfAttempts]) else (True, []))"

text \<open>\<open>int(td.total_seconds())\<close>: whole seconds, rounded towards zero.\<close>

definition whole_seconds :: "int \<Rightarrow> int" where
  "whole_seconds td = (if 0 \<le> td then td div 1000000 else - ((- td) div 1000000))"

definition check_time_limit :: "time \<Rightarrow> user \<Rightarrow> int \<Rightarrow> bool \<times> reply list" where
  "check_time_limit now usr n_time =
     (if status usr = ''premium'' then (True, [])
      else if now - last_photo_sent_timestamp usr < seconds n_time
      then (False,
            [TooManyRequests (n_time - whole_seconds (now - last_photo_sent_timestamp usr))])
      else (True, []))"

definition DELAY_BETWEEN_IMAGES :: int where
  "DELAY_BETWEEN_IMAGES = 2"

text \<open>\<open>prevent_multisending\<close>, on the module's dictionary \<open>SENT_TIME\<close>.\<close>

definition prevent_multisending ::
  "time \<Rightarrow> (int \<rightharpoonup> time) \<Rightarrow> message \<Rightarrow> bool \<times> (int \<rightharpoonup> time)" where
  "prevent_multisending dt sent msg =
     (let last_sent = sent (tg_id (from_user msg))
      in if media_group_id msg = None \<and>
            (case last_sent of None \<Rightarrow> True
             | Some l \<Rightarrow> dt - l \<ge> seconds DELAY_BETWEEN_IMAGES)
         then (True, sent(tg_id (from_user msg) \<mapsto> dt))
         else (False, sent))"

text \<open>
  \<open>target_image_check\<close> returns the path or \<open>None\<close>; the caller tests the result for
  truth, and an empty string is false.
\<close>

definition target_image_check :: "db \<Rightarrow> user \<Rightarrow> string \<Rightarrow> string option \<times> db" where
  "target_image_check d usr input_image =
     (if status usr = ''premium'' \<and> receive_target_flag usr \<noteq> 0
      then (Some input_image,
            toggle_receive_target_flag (update_user_mode d (user_id usr) input_image)
              (user_id usr) 0)
      else (None, d))"

definition truthy :: "string option \<Rightarrow> bool" where
  "truthy r = (case r of None \<Rightarrow> False | Some p \<Rightarrow> p \<noteq> [])"

text \<open>
  The two HTTP calls of \<open>handle_image\<close> as the environment answers them. The download:
  an exception, or a status together with whether \<open>save_img\<close> then succeeds. The
  worker: an exception (connection failure, timeout), or a status with the list of output
  paths decoded from the body.
\<close>

datatype http_get = GetRaises | GetResponse nat bool

datatype http_post = PostRaises | PostResponse nat "string list"

text \<open>
  The loop over the worker's outputs: it ends normally with the row last fetched, or by
  the \<open>return\<close> inside it, or by the exception of \<open>check_limit\<close> on a missing row.
\<close>

datatype loop_result =
    Completed user "reply list"
  | Returned "reply list"
  | Raised "reply list"

fun send_outputs :: "db \<Rightarrow> int \<Rightarrow> user \<Rightarrow> reply list \<Rightarrow> string list \<Rightarrow> loop_result" where
  "send_outputs d uid usr acc [] = Completed usr acc"
| "send_outputs d uid usr acc (output_path # rest) =
     (case fetch_user_data d uid of
        None \<Rightarrow> Raised acc
      | Some fetched \<Rightarrow>
          (let (ok, r) = check_limit fetched
           in if \<not> ok then Returned (acc @ r)
              else send_outputs d uid fetched (acc @ r @ [Photo output_path]) rest))"

text \<open>
  What one run of a handler leaves: the database, the replies in the order sent, the
  requests posted to the worker (file path and mode), and whether an exception left the
  handler uncaught.
\<close>

record outcome =
  out_db :: db
  replies :: "reply list"
  posts :: "(string \<times> string) list"
  uncaught :: bool

text \<open>
  \<open>handle_image\<close>. \<open>gen\<close> is \<open>generate_filename\<close>: the fresh path it picks in the
  folder it is given. The calls to Telegram (\<open>get_file\<close>, the replies, the photos)
  are taken to succeed.
\<close>

definition handle_image ::
  "time \<Rightarrow> time \<Rightarrow> (string \<Rightarrow> string) \<Rightarrow> http_get \<Rightarrow> http_post \<Rightarrow> db \<Rightarrow> message \<Rightarrow> outcome" where
  "handle_image boot now gen dl wk d0 msg =
     (let uid = tg_id (from_user msg);
          d1 = exist_user_check boot d0 (from_user msg)
      in case fetch_user_data d1 uid of
           None \<Rightarrow> \<lparr>out_db = d1, replies = [], posts = [], uncaught = True\<rparr>
         | Some usr \<Rightarrow>
             (let (ok1, r1) = check_limit usr
              in if \<not> ok1 then \<lparr>out_db = d1, replies = r1, posts = [], uncaught = False\<rparr>
                 else
                 (let (ok2, r2) = check_time_limit now usr 20
                  in if \<not> ok2
                     then \<lparr>out_db = d1, replies = r1 @ r2, posts = [], uncaught = False\<rparr>
                     else
                     (let d2 = update_photo_timestamp d1 (user_id usr) now;
                          input_path = gen (if receive_target_flag usr \<noteq> 0
                                            then ''target_images'' else ''original'');
                          d3 = log_input_image_data boot now d2 msg input_path
                      in case dl of
                           GetRaises \<Rightarrow>
                             \<lparr>out_db = d3, replies = [SorryError], posts = [],
                              uncaught = False\<rparr>
                         | GetResponse st saved \<Rightarrow>
                             if st \<noteq> 200
                             then \<lparr>out_db = d3, replies = [FailedDownload], posts = [],
                                   uncaught = False\<rparr>
                             else if \<not> saved
                             then \<lparr>out_db = d3, replies = [ImageReceived, SorryError],
                                   posts = [], uncaught = False\<rparr>
                             else
                             (let (t, d4) = target_image_check d3 usr input_path
                              in if truthy t
                                 then \<lparr>out_db = d4, replies = [ImageReceived, TargetUploaded],
                                       posts = [], uncaught = False\<rparr>
                                 else
                                 (case wk of
                                    PostRaises \<Rightarrow>
                                      \<lparr>out_db = d4, replies = [ImageReceived, SorryError],
                                       posts = [(input_path, mode usr)], uncaught = False\<rparr>
                                  | PostResponse ws image_paths \<Rightarrow>
                                      if ws \<noteq> 200
                                      then \<lparr>out_db = d4,
                                            replies = [ImageReceived, FailedProcess],
                                            posts = [(input_path, mode usr)],
                                            uncaught = False\<rparr>
                                      else
                                      (case log_output_image_data boot now d4 msg input_path
                                              image_paths of
                                         None \<Rightarrow>
                                           \<lparr>out_db = d4,
                                            replies = [ImageReceived, SorryError],
                                            posts = [(input_path, mode usr)],
                                            uncaught = False\<rparr>
                                       | Some d5 \<Rightarrow>
                                           (case send_outputs d5 uid usr [] image_paths of
                                              Returned rs \<Rightarrow>
                                                \<lparr>out_db = d5, replies = ImageReceived # rs,
                                                 posts = [(input_path, mode usr)],
                                                 uncaught = False\<rparr>
                                            | Raised rs \<Rightarrow>
                                                \<lparr>out_db = d5,
                                                 replies = ImageReceived # rs @ [SorryError],
                                                 posts = [(input_path, mode usr)],
                                                 uncaught = False\<rparr>
                                            | Completed last_usr rs \<Rightarrow>
                                                \<lparr>out_db = fst (decrement_requests_left d5
                                                         (user_id last_usr)
                                                         (int (length image_paths))),
                                                 replies = ImageReceived # rs @
                                                   [AttemptsLeft (max 0 (requests_left last_usr
                                                      - int (length image_paths)))],
                                                 posts = [(input_path, mode usr)],
                                                 uncaught = False\<rparr>))))))))"

text \<open>The photo handler registered in \<open>setup_handlers\<close>.\<close>

definition image_handler ::
  "time \<Rightarrow> time \<Rightarrow> (string \<Rightarrow> string) \<Rightarrow> http_get \<Rightarrow> http_post \<Rightarrow>
   (int \<rightharpoonup> time) \<Rightarrow> db \<Rightarrow> message \<Rightarrow> (int \<rightharpoonup> time) \<times> outcome" where
  "image_handler boot now gen dl wk sent d msg =
     (let (ok, sent1) = prevent_multisending now sent msg
      in if ok then (sent1, handle_image boot now gen dl wk d msg)
         else (sent1, \<lparr>out_db = d, replies = [OneAtATime], posts = [], uncaught = False\<rparr>))"

text \<open>\<open>set_receive_flag\<close>, the handler of /new\_targets.\<close>

definition set_receive_flag :: "time \<Rightarrow> db \<Rightarrow> message \<Rightarrow> outcome" where
  "set_receive_flag boot d0 msg =
     (let d1 = exist_user_check boot d0 (from_user msg)
      in case receive_user d1 (tg_id (from_user msg)) of
           None \<Rightarrow> \<lparr>out_db = d1, replies = [], posts = [], uncaught = True\<rparr>
         | Some usr \<Rightarrow>
             if status usr = ''premium''
             then \<lparr>out_db = toggle_receive_target_flag d1 (tg_id (from_user msg)) 1,
                   replies = [ChangingSet], posts = [], uncaught = False\<rparr>
             else \<lparr>out_db = d1, replies = [NeedPremium], posts = [], uncaught = False\<rparr>)"

section \<open>The events of the bot\<close>










section \<open>Example states\<close>

text \<open>
  A user, a single photo of hers, the database after her first message (the column
  defaults: free, 10 requests), and the database after she bought premium at time 0 with a
  validity of 30 days.
\<close>

definition alice :: tg_user where
  "alice = \<lparr>tg_id = 1, tg_username = Some ''alice'', tg_first_name = Some ''Alice'',
             tg_last_name = None\<rparr>"

definition photo :: message where
  "photo = \<lparr>from_user = alice, media_group_id = None\<rparr>"

definition fresh_db :: db where
  "fresh_db = exist_user_check 0 empty_db alice"

definition fresh_alice :: user where
  "fresh_alice =
     \<lparr>user_id = 1, username = ''alice'', first_name = ''Alice'', last_name = [],
      mode = ''1'', receive_target_flag = 0, status = ''free'', requests_left = 10,
      targets_left = 0, last_photo_sent_timestamp = 0, premium_expiration = None\<rparr>"

definition premium_db :: db where
  "premium_db = buy_premium 30 0 fresh_db 1"

definition premium_alice :: user where
  "premium_alice =
     \<lparr>user_id = 1, username = ''alice'', first_name = ''Alice'', last_name = [],
      mode = ''1'', receive_target_flag = 0, status = ''premium'', requests_left = 110,
      targets_left = 10, last_photo_sent_timestamp = 0, premium_expiration = Some 30\<rparr>"

text \<open>The invariant of the ledger: no negative quota, no negative increment.\<close>

definition ledger_inv :: "db \<Rightarrow> bool" where
  "ledger_inv d = (quotas_nonneg d \<and> increments_nonneg d)"

text \<open>A month of operations on two users.\<close>

definition busy_month :: "ledger_op list" where
  "busy_month =
     [Insert_user 2 ''bob'' ''Bob'' [], Decrement_requests_left 1 25, Buy_premium 0 1,
      Decrement_targets_left 1 3, Decrement_requests_left 2 4, Set_requests_left 2 0,
      Update_user_quotas (days 1) 10 24, Decrement_requests_left 1 500,
      Decrement_targets_left 1 50, Update_user_quotas (days 31) 10 24,
      Buy_premium (days 32) 2, Decrement_targets_left 2 1, Decrement_requests_left 2 500]"




text \<open>The premium user has asked to upload a target (/new\_targets).\<close>

definition waiting_db :: db where
  "waiting_db = out_db (set_receive_flag 0 premium_db photo)"

text \<open>
  A \<open>generate_filename\<close>, a database in which the user has one request left, and a
  successful answer of the worker with three output paths.
\<close>

definition gen_example :: "string \<Rightarrow> string" where
  "gen_example folder = ''/srv/bot/temp/'' @ folder @ ''/img_4711.png''"

definition one_left_db :: db where
  "one_left_db = fst (decrement_requests_left fresh_db 1 9)"

definition three_faces :: http_post where
  "three_faces = PostResponse 200
     [''temp/result/img_4711_0.png'', ''temp/result/img_4711_1.png'',
      ''temp/result/img_4711_2.png'']"

text \<open>
  The worker call failed: the request raised (connection failure or timeout), or the
  status of the response is not 200.
\<close>

fun worker_failed :: "http_post \<Rightarrow> bool" where
  "worker_failed PostRaises = True"
| "worker_failed (PostResponse ws image_paths) = (ws \<noteq> 200)"

text \<open>The row of the premium user who has asked to upload a target.\<close>

definition waiting_alice :: user where
  "waiting_alice = premium_alice\<lparr>receive_target_flag := 1\<rparr>"

text \<open>A photo that is part of a media group.\<close>

definition album :: message where
  "album = \<lparr>from_user = alice, media_group_id = Some ''13371337''\<rparr>"

text \<open>The number of photos among the replies.\<close>

fun photos_sent :: "reply list \<Rightarrow> nat" where
  "photos_sent [] = 0"
| "photos_sent (Photo p # rs) = Suc (photos_sent rs)"
| "photos_sent (r # rs) = photos_sent rs"




text \<open>\<open>SENT_TIME\<close> after a single photo of the user was accepted at second 100.\<close>

definition recent_sent :: "int \<rightharpoonup> time" where
  "recent_sent = snd (prevent_multisending (seconds 100) Map.empty photo)"

text \<open>
  The database after a photo of the fresh user for which the worker answered 500 (its image
  record stays without output), the fresh user with all her requests consumed, and the
  premium user who asked to upload a target with all her requests consumed.
\<close>

definition failed_once_db :: db where
  "failed_once_db = out_db (handle_image 0 (seconds 60) gen_example (GetResponse 200 True)
     (PostResponse 500 []) fresh_db photo)"

definition spent_db :: db where
  "spent_db = fst (decrement_requests_left fresh_db 1 10)"

definition spent_waiting_db :: db where
  "spent_waiting_db = fst (decrement_requests_left waiting_db 1 110)"

section \<open>Lookups after an update\<close>

lemma find_user_id: "find_user us uid = Some u \<Longrightarrow> user_id u = uid"
  by (induction us) (auto split: if_splits)

lemma find_update_user:
  "(\<And>u. user_id (f u) = user_id u) \<Longrightarrow>
   find_user (update_user f uid us) k =
     (if k = uid then map_option f (find_user us k) else find_user us k)"
  by (induction us) auto

section \<open>Consuming requests\<close>

text \<open>
  C3 (amended). For an existing user and \<open>n \<ge> 0\<close>, \<open>decrement_requests_left\<close> lowers
  \<open>requests_left\<close> by exactly \<open>min n requests_left\<close>, the new value is never negative,
  every other column of the row is kept, and the function returns \<open>None\<close>: it does
  not return the remaining count.
\<close>

theorem decrement_requests_left_min:
  assumes "find_user (users d) uid = Some u" and "0 \<le> n"
  shows "find_user (users (fst (decrement_requests_left d uid n))) uid =
           Some (u\<lparr>requests_left := requests_left u - min n (requests_left u)\<rparr>)
         \<and> 0 \<le> requests_left u - min n (requests_left u)
         \<and> snd (decrement_requests_left d uid n) = None"
proof -
  let ?f = "\<lambda>u. if requests_left u > 0
              then u\<lparr>requests_left := max 0 (requests_left u - n)\<rparr>
              else u\<lparr>requests_left := 0\<rparr>"
  have keep: "\<And>v. user_id (?f v) = user_id v" by simp
  have "find_user (update_user ?f uid (users d)) uid = map_option ?f (find_user (users d) uid)"
    using find_update_user [of ?f uid "users d" uid, OF keep] by simp
  moreover have "?f u = u\<lparr>requests_left := requests_left u - min n (requests_left u)\<rparr>"
    using assms(2) by (simp add: max_def min_def)
  moreover have "0 \<le> requests_left u - min n (requests_left u)"
    using assms(2) by (simp add: min_def)
  ultimately show ?thesis
    using assms(1) by (simp add: decrement_requests_left_def)
qed

lemma fresh_db_alice: "find_user (users fresh_db) 1 = Some fresh_alice"
  by code_simp

theorem decrement_requests_left_min_witness:
  "find_user (users (fst (decrement_requests_left fresh_db 1 12))) 1 =
     Some (fresh_alice\<lparr>requests_left := 0\<rparr>)
   \<and> snd (decrement_requests_left fresh_db 1 12) = None"
  using decrement_requests_left_min [OF fresh_db_alice, of 12]
  by (simp add: fresh_alice_def)

text \<open>
  The count that remains after consuming 3 of 10 requests is 7; the value returned is
  \<open>None\<close>.
\<close>

theorem decrement_requests_left_returns_counterexample:
  "map_option requests_left
     (find_user (users (fst (decrement_requests_left fresh_db 1 3))) 1) = Some 7
   \<and> snd (decrement_requests_left fresh_db 1 3) \<noteq> Some 7"
  by code_simp

section \<open>The sweep over all users\<close>

lemma find_user_append:
  "find_user (us @ [x]) k =
     (case find_user us k of Some u \<Rightarrow> Some u
      | None \<Rightarrow> if user_id x = k then Some x else None)"
  by (induction us) auto

lemma recompute_user_id: "user_id (recompute fr act u) = user_id u"
  by (simp add: recompute_def)

lemma active_delete_expired:
  "active_purchases today (delete_expired today ps x) uid = active_purchases today ps uid"
  unfolding active_purchases_def delete_expired_def
  by (induction ps) auto

lemma fst_sweep_Cons:
  "fst (sweep fr today (u # us) ps) =
     recompute fr (active_purchases today ps (user_id u)) u
       # fst (sweep fr today us (delete_expired today ps (user_id u)))"
  by (simp add: Let_def active_delete_expired split: prod.splits)

lemma snd_sweep_Cons:
  "snd (sweep fr today (u # us) ps) =
     snd (sweep fr today us (delete_expired today ps (user_id u)))"
  by (simp add: Let_def split: prod.splits)

lemma sweep_find:
  "find_user (fst (sweep fr today us ps)) uid =
     map_option (recompute fr (active_purchases today ps uid)) (find_user us uid)"
proof (induction us arbitrary: ps)
  case Nil
  then show ?case by simp
next
  case (Cons u us)
  show ?case
    unfolding fst_sweep_Cons
    by (simp add: Cons.IH recompute_user_id active_delete_expired)
qed


lemma sweep_purchases_subset: "set (snd (sweep fr today us ps)) \<subseteq> set ps"
proof (induction us arbitrary: ps)
  case Nil
  then show ?case by simp
next
  case (Cons u us)
  have "set (snd (sweep fr today us (delete_expired today ps (user_id u))))
          \<subseteq> set (delete_expired today ps (user_id u))"
    by (rule Cons.IH)
  also have "\<dots> \<subseteq> set ps" by (auto simp: delete_expired_def)
  finally show ?case unfolding snd_sweep_Cons .
qed

lemma users_log_scheduler_run: "users (log_scheduler_run now off d job st det hdl) = users d"
  by (simp add: log_scheduler_run_def split: option.splits)

lemma purchases_log_scheduler_run:
  "premium_purchases (log_scheduler_run now off d job st det hdl) = premium_purchases d"
  by (simp add: log_scheduler_run_def split: option.splits)

lemma users_update_user_quotas:
  "users (update_user_quotas now off d fr td) =
     fst (sweep fr (date_of now) (users d) (premium_purchases d))"
  by (simp add: update_user_quotas_def users_log_scheduler_run split: prod.splits)

lemma purchases_update_user_quotas:
  "premium_purchases (update_user_quotas now off d fr td) =
     snd (sweep fr (date_of now) (users d) (premium_purchases d))"
  by (simp add: update_user_quotas_def purchases_log_scheduler_run split: prod.splits)


lemma premium_db_alice: "find_user (users premium_db) 1 = Some premium_alice"
  by code_simp

section \<open>The reconciliation rule\<close>

text \<open>
  C4. For a user of the database, \<open>update_user_quotas\<close> sums the request and target
  increments of the user's purchases whose expiration date is not before today. With no
  such purchase the user is reverted to free with the free quota and no premium
  expiration, whatever the status was; otherwise \<open>requests_left\<close> and
  \<open>targets_left\<close> become the two sums and the status is kept, so a premium user
  remains premium.
\<close>

theorem recompute_from_purchases:
  assumes "find_user (users d) uid = Some u"
  shows "\<exists>v. find_user (users (update_user_quotas now off d free_requests td)) uid = Some v \<and>
     (let act = filter (\<lambda>p. p_user_id p = uid \<and> date_of now \<le> expiration_date p)
                  (premium_purchases d)
      in if act = []
         then status v = ''free'' \<and> requests_left v = free_requests
              \<and> premium_expiration v = None
         else requests_left v = sum_list (map request_increment act)
              \<and> targets_left v = sum_list (map targets_increment act)
              \<and> status v = status u)"
  using assms
  by (simp add: users_update_user_quotas sweep_find recompute_def active_purchases_def Let_def)

theorem recompute_from_purchases_witness:
  "\<exists>v. find_user (users (update_user_quotas (days 1) 0 premium_db 10 24)) 1 = Some v
       \<and> requests_left v = 100 \<and> targets_left v = 10 \<and> status v = ''premium''"
proof -
  have act: "filter (\<lambda>p. p_user_id p = 1 \<and> date_of (days 1) \<le> expiration_date p)
               (premium_purchases premium_db)
             = [\<lparr>p_user_id = 1, purchase_date = 0, expiration_date = 30,
                 targets_increment = 10, request_increment = 100\<rparr>]"
    by code_simp
  have st: "status premium_alice = ''premium''" by (simp add: premium_alice_def)
  show ?thesis
    using recompute_from_purchases [OF premium_db_alice, of "days 1" 0 10 24]
    by (simp add: act st)
qed

text \<open>
  C10. When the job reverts a user without a valid purchase to free, it writes the status,
  \<open>requests_left\<close> and \<open>premium_expiration\<close> and nothing else of the row:
  \<open>targets_left\<close> keeps its previous value.
\<close>

theorem free_reversion_keeps_targets_left:
  assumes "find_user (users d) uid = Some u"
    and "filter (\<lambda>p. p_user_id p = uid \<and> date_of now \<le> expiration_date p)
           (premium_purchases d) = []"
  shows "find_user (users (update_user_quotas now off d free_requests td)) uid =
           Some (u\<lparr>status := ''free'', requests_left := free_requests,
                   premium_expiration := None\<rparr>)
         \<and> map_option targets_left
             (find_user (users (update_user_quotas now off d free_requests td)) uid)
           = Some (targets_left u)"
  using assms
  by (simp add: users_update_user_quotas sweep_find recompute_def active_purchases_def)

theorem free_reversion_keeps_targets_left_witness:
  "map_option (\<lambda>v. (status v, requests_left v, targets_left v, premium_expiration v))
     (find_user (users (update_user_quotas (days 31) 0 premium_db 10 24)) 1)
   = Some (''free'', 10, 10, None)"
proof -
  have act: "filter (\<lambda>p. p_user_id p = 1 \<and> date_of (days 31) \<le> expiration_date p)
               (premium_purchases premium_db) = []"
    by code_simp
  show ?thesis
    using free_reversion_keeps_targets_left [OF premium_db_alice act, of 0 10 24]
    by (simp add: premium_alice_def)
qed

section \<open>Quotas are never negative\<close>

lemma list_all_update_user:
  "list_all P us \<Longrightarrow> (\<And>u. P u \<Longrightarrow> P (f u)) \<Longrightarrow> list_all P (update_user f uid us)"
  by (induction us) auto

lemma active_subset: "set (active_purchases today ps uid) \<subseteq> set ps"
  by (auto simp: active_purchases_def)

lemma sum_increments_nonneg:
  "list_all (\<lambda>p. 0 \<le> request_increment p \<and> 0 \<le> targets_increment p) ps \<Longrightarrow>
   0 \<le> sum_list (map request_increment (active_purchases today ps uid))
   \<and> 0 \<le> sum_list (map targets_increment (active_purchases today ps uid))"
  by (induction ps) (auto simp: active_purchases_def)

lemma list_all_delete_expired:
  "list_all P ps \<Longrightarrow> list_all P (delete_expired today ps x)"
  by (simp add: delete_expired_def list_all_iff)

lemma sweep_quotas_nonneg:
  "0 \<le> fr \<Longrightarrow>
   list_all (\<lambda>u. 0 \<le> requests_left u \<and> 0 \<le> targets_left u) us \<Longrightarrow>
   list_all (\<lambda>p. 0 \<le> request_increment p \<and> 0 \<le> targets_increment p) ps \<Longrightarrow>
   list_all (\<lambda>u. 0 \<le> requests_left u \<and> 0 \<le> targets_left u) (fst (sweep fr today us ps))"
proof (induction us arbitrary: ps)
  case Nil
  then show ?case by simp
next
  case (Cons u us)
  have tl: "list_all (\<lambda>u. 0 \<le> requests_left u \<and> 0 \<le> targets_left u)
              (fst (sweep fr today us (delete_expired today ps (user_id u))))"
    using Cons.IH [of "delete_expired today ps (user_id u)"] Cons.prems
    by (simp add: list_all_delete_expired)
  have hd: "0 \<le> requests_left (recompute fr (active_purchases today ps (user_id u)) u)
          \<and> 0 \<le> targets_left (recompute fr (active_purchases today ps (user_id u)) u)"
    using Cons.prems sum_increments_nonneg [of ps today "user_id u"]
    by (simp add: recompute_def)
  show ?case
    unfolding fst_sweep_Cons using hd tl by simp
qed

lemma ledger_inv_step:
  assumes "ledger_inv d" and "nonneg_args x"
  shows "ledger_inv (apply_op boot pd off d x)"
proof (cases x)
  case (Insert_user uid un fn ln)
  then show ?thesis
    using assms(1)
    by (auto simp: ledger_inv_def quotas_nonneg_def increments_nonneg_def insert_user_def
             intro: list_all_update_user split: option.splits)
next
  case (Decrement_requests_left uid n)
  then show ?thesis
    using assms(1)
    by (auto simp: ledger_inv_def quotas_nonneg_def increments_nonneg_def
                   decrement_requests_left_def intro: list_all_update_user)
next
  case (Decrement_targets_left uid n)
  then show ?thesis
    using assms(1)
    by (auto simp: ledger_inv_def quotas_nonneg_def increments_nonneg_def
                   decrement_targets_left_def intro: list_all_update_user)
next
  case (Set_requests_left uid number)
  then show ?thesis
    using assms
    by (auto simp: ledger_inv_def set_requests_left_def split: option.splits)
next
  case (Buy_premium now uid)
  then show ?thesis
    using assms(1)
    by (auto simp: ledger_inv_def quotas_nonneg_def increments_nonneg_def buy_premium_def
                   Let_def intro: list_all_update_user split: option.splits)
next
  case (Update_user_quotas now fr td)
  have q: "quotas_nonneg (update_user_quotas now off d fr td)"
    using assms Update_user_quotas
    by (simp add: quotas_nonneg_def ledger_inv_def increments_nonneg_def
                  users_update_user_quotas sweep_quotas_nonneg)
  have "set (premium_purchases (update_user_quotas now off d fr td)) \<subseteq> set (premium_purchases d)"
    by (simp add: purchases_update_user_quotas sweep_purchases_subset)
  then have i: "increments_nonneg (update_user_quotas now off d fr td)"
    using assms(1) by (auto simp: ledger_inv_def increments_nonneg_def list_all_iff)
  show ?thesis using q i Update_user_quotas by (simp add: ledger_inv_def)
qed

lemma ledger_inv_apply_ops:
  "ledger_inv d \<Longrightarrow> list_all nonneg_args ops \<Longrightarrow> ledger_inv (apply_ops boot pd off d ops)"
  by (induction ops arbitrary: d) (auto simp: ledger_inv_step)

text \<open>
  C5. From a database without a negative quota or increment (an empty one, or one of
  users as \<open>insert_user\<close> creates them), every sequence of \<open>insert_user\<close>,
  \<open>decrement_requests_left\<close>, \<open>decrement_targets_left\<close>, \<open>set_requests_left\<close>,
  \<open>buy_premium\<close> and \<open>update_user_quotas\<close> with non-negative arguments leaves
  \<open>requests_left\<close> and \<open>targets_left\<close> of every user non-negative.
\<close>

theorem quotas_never_negative:
  assumes "quotas_nonneg d" and "increments_nonneg d" and "list_all nonneg_args ops"
  shows "\<forall>u \<in> set (users (apply_ops boot pd off d ops)).
           0 \<le> requests_left u \<and> 0 \<le> targets_left u"
proof -
  have "ledger_inv (apply_ops boot pd off d ops)"
    using ledger_inv_apply_ops [of d ops boot pd off] assms by (simp add: ledger_inv_def)
  then show ?thesis
    by (simp add: ledger_inv_def quotas_nonneg_def list_all_iff)
qed

theorem quotas_never_negative_witness:
  "quotas_nonneg fresh_db \<and> increments_nonneg fresh_db \<and> list_all nonneg_args busy_month
   \<and> list_all (\<lambda>u. 0 \<le> requests_left u \<and> 0 \<le> targets_left u)
         (users (apply_ops 0 30 0 fresh_db busy_month))"
proof -
  have a: "quotas_nonneg fresh_db" by code_simp
  have b: "increments_nonneg fresh_db" by code_simp
  have c: "list_all nonneg_args busy_month" by code_simp
  show ?thesis
    using quotas_never_negative [OF a b c, of 0 30 0] a b c by (simp add: list_all_iff)
qed

section \<open>Sending the outputs of the worker\<close>

text \<open>
  While the row of the user has requests left, the loop over the outputs sends every one
  of them: nothing is consumed inside the loop, so every round reads the same count.
\<close>

lemma send_outputs_all:
  "find_user (users d) uid = Some u \<Longrightarrow> 0 < requests_left u \<Longrightarrow>
   send_outputs d uid usr acc paths =
     Completed (if paths = [] then usr else u) (acc @ map Photo paths)"
  by (induction paths arbitrary: usr acc)
     (auto simp: fetch_user_data_def check_limit_def)


section \<open>Handling a photo\<close>

lemma find_exist_user_check:
  "find_user (users d) (tg_id tu) = Some u \<Longrightarrow>
   find_user (users (exist_user_check boot d tu)) (tg_id tu) =
     Some (u\<lparr>username := underscore (or_empty (tg_username tu)),
             first_name := underscore (or_empty (tg_first_name tu)),
             last_name := underscore (or_empty (tg_last_name tu))\<rparr>)"
  by (simp add: exist_user_check_def insert_user_def find_update_user)

lemma tables_exist_user_check:
  "image_names (exist_user_check boot d tu) = image_names d"
  "premium_purchases (exist_user_check boot d tu) = premium_purchases d"
  "scheduler_logs (exist_user_check boot d tu) = scheduler_logs d"
  by (simp_all add: exist_user_check_def insert_user_def split: option.splits)

text \<open>
  C8 (amended). A premium user whose awaiting-target flag is set and who has requests left
  uploads a photo that is downloaded (status 200) and saved under a non-empty path: the
  path of the photo becomes the user's mode, the flag is cleared, the replies end with the
  notice that the target is uploaded, the worker is not called, and \<open>requests_left\<close> and
  \<open>targets_left\<close> are as before.
\<close>

theorem target_upload:
  assumes "find_user (users d) (tg_id (from_user msg)) = Some u"
    and "status u = ''premium''" and "receive_target_flag u \<noteq> 0"
    and "0 < requests_left u"
    and "dl = GetResponse 200 True" and "gen ''target_images'' \<noteq> []"
  shows "replies (handle_image boot now gen dl wk d msg) = [ImageReceived, TargetUploaded]
    \<and> posts (handle_image boot now gen dl wk d msg) = []
    \<and> (\<exists>v. find_user (users (out_db (handle_image boot now gen dl wk d msg)))
               (tg_id (from_user msg)) = Some v
          \<and> mode v = gen ''target_images'' \<and> receive_target_flag v = 0
          \<and> status v = ''premium''
          \<and> requests_left v = requests_left u \<and> targets_left v = targets_left u)"
proof -
  let ?uid = "tg_id (from_user msg)"
  let ?d1 = "exist_user_check boot d (from_user msg)"
  obtain u1 where u1: "find_user (users ?d1) ?uid = Some u1"
    and same: "status u1 = status u" "receive_target_flag u1 = receive_target_flag u"
      "requests_left u1 = requests_left u" "targets_left u1 = targets_left u"
      "user_id u1 = ?uid"
    using find_exist_user_check [OF assms(1), of boot] find_user_id [OF assms(1)] by simp
  show ?thesis
    using u1 same assms(2-6)
    by (simp add: handle_image_def Let_def fetch_user_data_def check_limit_def
          check_time_limit_def target_image_check_def truthy_def
          log_input_image_data_def create_image_entry_def update_photo_timestamp_def
          update_user_mode_def toggle_receive_target_flag_def
          exist_user_check_def insert_user_def find_update_user)
qed


lemma waiting_db_alice: "find_user (users waiting_db) (tg_id (from_user photo)) = Some waiting_alice"
  by code_simp

theorem target_upload_witness:
  "replies (handle_image 0 (seconds 60) gen_example (GetResponse 200 True) three_faces
      waiting_db photo) = [ImageReceived, TargetUploaded]
   \<and> posts (handle_image 0 (seconds 60) gen_example (GetResponse 200 True) three_faces
      waiting_db photo) = []
   \<and> (\<exists>v. find_user (users (out_db (handle_image 0 (seconds 60) gen_example
               (GetResponse 200 True) three_faces waiting_db photo))) 1 = Some v
         \<and> mode v = ''/srv/bot/temp/target_images/img_4711.png''
         \<and> receive_target_flag v = 0 \<and> status v = ''premium''
         \<and> requests_left v = 110 \<and> targets_left v = 10)"
proof -
  have a: "status waiting_alice = ''premium''" "receive_target_flag waiting_alice \<noteq> 0"
    "0 < requests_left waiting_alice" "requests_left waiting_alice = 110"
    "targets_left waiting_alice = 10"
    by (simp_all add: waiting_alice_def premium_alice_def)
  have g: "gen_example ''target_images'' \<noteq> []"
    "gen_example ''target_images'' = ''/srv/bot/temp/target_images/img_4711.png''"
    by (simp_all add: gen_example_def)
  have i: "tg_id (from_user photo) = 1" by (simp add: photo_def alice_def)
  show ?thesis
    using target_upload [where d = waiting_db and msg = photo and u = waiting_alice
            and dl = "GetResponse 200 True" and gen = gen_example and boot = 0
            and now = "seconds 60" and wk = three_faces]
          waiting_db_alice a g i
    by simp
qed

text \<open>
  C6. When the worker call fails, \<open>requests_left\<close> of the user is what it was before
  the photo; and if the worker was called at all, the user gets a retryable-error reply
  (the generic one after an exception, the processing one after a bad status) and the
  image record created for the photo has no output.
\<close>

theorem worker_failure_keeps_quota:
  assumes "find_user (users d) (tg_id (from_user msg)) = Some u" and "worker_failed wk"
  shows "map_option requests_left
           (find_user (users (out_db (handle_image boot now gen dl wk d msg)))
              (tg_id (from_user msg))) = Some (requests_left u)
    \<and> (posts (handle_image boot now gen dl wk d msg) \<noteq> [] \<longrightarrow>
         replies (handle_image boot now gen dl wk d msg)
           = [ImageReceived, if wk = PostRaises then SorryError else FailedProcess]
         \<and> image_names (out_db (handle_image boot now gen dl wk d msg))
           = image_names d @
             [\<lparr>img_user_id = tg_id (from_user msg),
               input_image_name = gen (if receive_target_flag u \<noteq> 0
                                       then ''target_images'' else ''original''),
               output_image_names = None, img_timestamp = now\<rparr>])"
proof -
  let ?uid = "tg_id (from_user msg)"
  let ?d1 = "exist_user_check boot d (from_user msg)"
  obtain u1 where u1: "find_user (users ?d1) ?uid = Some u1"
    and same: "receive_target_flag u1 = receive_target_flag u"
      "requests_left u1 = requests_left u" "user_id u1 = ?uid"
    using find_exist_user_check [OF assms(1), of boot] find_user_id [OF assms(1)] by simp
  have img: "image_names ?d1 = image_names d" by (rule tables_exist_user_check)
  show ?thesis
  proof (cases wk)
    case PostRaises
    show ?thesis
      using u1 same img PostRaises
      by (cases dl)
         (simp_all add: handle_image_def Let_def fetch_user_data_def check_limit_def
          check_time_limit_def target_image_check_def truthy_def
          log_input_image_data_def create_image_entry_def update_photo_timestamp_def
          update_user_mode_def toggle_receive_target_flag_def
          exist_user_check_def insert_user_def find_update_user)
  next
    case (PostResponse ws image_paths)
    then have "ws \<noteq> 200" using assms(2) by simp
    then show ?thesis
      using u1 same img PostResponse
      by (cases dl)
         (simp_all add: handle_image_def Let_def fetch_user_data_def check_limit_def
          check_time_limit_def target_image_check_def truthy_def
          log_input_image_data_def create_image_entry_def update_photo_timestamp_def
          update_user_mode_def toggle_receive_target_flag_def
          exist_user_check_def insert_user_def find_update_user)
  qed
qed


theorem worker_failure_keeps_quota_witness:
  "map_option requests_left
     (find_user (users (out_db (handle_image 0 (seconds 60) gen_example
        (GetResponse 200 True) PostRaises fresh_db photo))) 1) = Some 10
   \<and> replies (handle_image 0 (seconds 60) gen_example (GetResponse 200 True) PostRaises
        fresh_db photo) = [ImageReceived, SorryError]
   \<and> replies (handle_image 0 (seconds 60) gen_example (GetResponse 200 True)
        (PostResponse 500 []) fresh_db photo) = [ImageReceived, FailedProcess]
   \<and> map output_image_names
        (image_names (out_db (handle_image 0 (seconds 60) gen_example
           (GetResponse 200 True) (PostResponse 500 []) fresh_db photo))) = [None]"
proof -
  have u: "find_user (users fresh_db) (tg_id (from_user photo)) = Some fresh_alice"
    by code_simp
  have i: "tg_id (from_user photo) = 1" by (simp add: photo_def alice_def)
  have r: "requests_left fresh_alice = 10" by (simp add: fresh_alice_def)
  have n: "image_names fresh_db = []" by code_simp
  have p1: "posts (handle_image 0 (seconds 60) gen_example (GetResponse 200 True) PostRaises
              fresh_db photo) \<noteq> []"
    by code_simp
  have p2: "posts (handle_image 0 (seconds 60) gen_example (GetResponse 200 True)
              (PostResponse 500 []) fresh_db photo) \<noteq> []"
    by code_simp
  have f1: "worker_failed PostRaises" by simp
  have f2: "worker_failed (PostResponse 500 [])" by simp
  show ?thesis
    using worker_failure_keeps_quota [OF u f1, of 0 "seconds 60" gen_example "GetResponse 200 True"]
          worker_failure_keeps_quota [OF u f2, of 0 "seconds 60" gen_example "GetResponse 200 True"]
          i r n p1 p2
    by simp
qed

section \<open>The job and its run log\<close>


lemma sweep_ignores_logs:
  "users (update_user_quotas now off (d\<lparr>scheduler_logs := logs\<rparr>) fr td)
     = users (update_user_quotas now off d fr td)
   \<and> premium_purchases (update_user_quotas now off (d\<lparr>scheduler_logs := logs\<rparr>) fr td)
     = premium_purchases (update_user_quotas now off d fr td)"
  by (simp add: users_update_user_quotas purchases_update_user_quotas)




section \<open>The awaiting-target flag\<close>









lemma users_update_image_entry:
  "update_image_entry now d uid inp outs = Some d1 \<Longrightarrow> users d1 = users d"
  by (auto simp: update_image_entry_def Let_def split: list.splits)





section \<open>The paths of the photo handler\<close>

lemma handle_image_gate_fail:
  assumes "fetch_user_data (exist_user_check boot d (from_user msg)) (tg_id (from_user msg))
             = Some usr"
    and "\<not> (fst (check_limit usr) \<and> fst (check_time_limit now usr 20))"
  shows "out_db (handle_image boot now gen dl wk d msg) = exist_user_check boot d (from_user msg)
    \<and> posts (handle_image boot now gen dl wk d msg) = []"
proof (cases "fst (check_limit usr)")
  case False
  then obtain r1 where "check_limit usr = (False, r1)" by (cases "check_limit usr") auto
  then show ?thesis using assms(1) by (simp add: handle_image_def Let_def)
next
  case True
  then obtain r1 where cl: "check_limit usr = (True, r1)" by (cases "check_limit usr") auto
  from True assms(2) obtain r2 where ct: "check_time_limit now usr 20 = (False, r2)"
    by (cases "check_time_limit now usr 20") auto
  show ?thesis using assms(1) cl ct by (simp add: handle_image_def Let_def)
qed

lemma handle_image_shape:
  assumes f: "fetch_user_data (exist_user_check boot d (from_user msg)) (tg_id (from_user msg))
             = Some usr"
    and g: "fst (check_limit usr)" "fst (check_time_limit now usr 20)"
    and ip: "ip = gen (if receive_target_flag usr \<noteq> 0 then ''target_images'' else ''original'')"
    and d3: "d3 = log_input_image_data boot now
               (update_photo_timestamp (exist_user_check boot d (from_user msg))
                  (user_id usr) now) msg ip"
    and d4: "d4 = snd (target_image_check d3 usr ip)"
  shows "out_db (handle_image boot now gen dl wk d msg) = d3
    \<or> out_db (handle_image boot now gen dl wk d msg) = d4
    \<or> (\<exists>d5 paths. log_output_image_data boot now d4 msg ip paths = Some d5 \<and>
          (out_db (handle_image boot now gen dl wk d msg) = d5
           \<or> (\<exists>uid n. out_db (handle_image boot now gen dl wk d msg)
                  = fst (decrement_requests_left d5 uid n))))"
proof -
  obtain r1 where cl: "check_limit usr = (True, r1)"
    using g(1) by (cases "check_limit usr") auto
  obtain r2 where ct: "check_time_limit now usr 20 = (True, r2)"
    using g(2) by (cases "check_time_limit now usr 20") auto
  obtain t where tc: "target_image_check d3 usr ip = (t, d4)"
    using d4 by (cases "target_image_check d3 usr ip") auto
  note unfold = handle_image_def Let_def f cl ct ip [symmetric] d3 [symmetric] tc
  show ?thesis
  proof (cases dl)
    case GetRaises
    then show ?thesis by (simp add: unfold)
  next
    case (GetResponse st saved)
    show ?thesis
    proof (cases "st = 200 \<and> saved \<and> \<not> truthy t")
      case False
      then show ?thesis using GetResponse by (auto simp: unfold)
    next
      case True
      show ?thesis
      proof (cases wk)
        case PostRaises
        then show ?thesis using GetResponse True by (simp add: unfold)
      next
        case (PostResponse ws paths)
        show ?thesis
        proof (cases "ws = 200")
          case False
          then show ?thesis using GetResponse True PostResponse by (simp add: unfold)
        next
          case ok: True
          show ?thesis
          proof (cases "log_output_image_data boot now d4 msg ip paths")
            case None
            then show ?thesis using GetResponse True PostResponse ok by (simp add: unfold)
          next
            case (Some d5)
            show ?thesis
            proof (cases "send_outputs d5 (tg_id (from_user msg)) usr [] paths")
              case (Completed last_usr rs)
              then show ?thesis
                using GetResponse True PostResponse ok Some by (auto simp: unfold)
            next
              case (Returned rs)
              then show ?thesis
                using GetResponse True PostResponse ok Some by (auto simp: unfold)
            next
              case (Raised rs)
              then show ?thesis
                using GetResponse True PostResponse ok Some by (auto simp: unfold)
            qed
          qed
        qed
      qed
    qed
  qed
qed


lemma names_map_outputs:
  "map input_image_name
     (map (\<lambda>e. if P e then e\<lparr>output_image_names := a, img_timestamp := t\<rparr> else e) xs)
   = map input_image_name xs"
  by (induction xs) auto

lemma names_update_image_entry:
  "update_image_entry now d uid inp outs = Some d1 \<Longrightarrow>
   map input_image_name (image_names d1) = map input_image_name (image_names d)"
  by (auto simp: update_image_entry_def Let_def names_map_outputs split: list.splits)

lemma stamp_exist_user_check:
  "find_user (users d) k \<noteq> None \<Longrightarrow>
   map_option last_photo_sent_timestamp (find_user (users (exist_user_check boot d tu)) k)
     = map_option last_photo_sent_timestamp (find_user (users d) k)"
  by (auto simp: exist_user_check_def insert_user_def find_update_user find_user_append
        split: option.splits)

lemma stamp_update:
  "(\<And>u. user_id (f u) = user_id u) \<Longrightarrow>
   (\<And>u. last_photo_sent_timestamp (f u) = last_photo_sent_timestamp u) \<Longrightarrow>
   map_option last_photo_sent_timestamp (find_user (update_user f uid us) j)
     = map_option last_photo_sent_timestamp (find_user us j)"
  by (induction us) auto

lemma stamp_decrement:
  "map_option last_photo_sent_timestamp
     (find_user (users (fst (decrement_requests_left d k n))) j)
   = map_option last_photo_sent_timestamp (find_user (users d) j)"
  by (simp add: decrement_requests_left_def stamp_update)

lemma handle_image_accepted:
  assumes f: "fetch_user_data (exist_user_check boot d (from_user msg)) (tg_id (from_user msg))
             = Some usr"
    and g1: "fst (check_limit usr)" and g2: "fst (check_time_limit now usr 20)"
  shows "map input_image_name (image_names (out_db (handle_image boot now gen dl wk d msg)))
           = map input_image_name (image_names d) @
             [gen (if receive_target_flag usr \<noteq> 0 then ''target_images'' else ''original'')]
    \<and> map_option last_photo_sent_timestamp
         (find_user (users (out_db (handle_image boot now gen dl wk d msg)))
            (tg_id (from_user msg))) = Some now"
proof -
  let ?H = "handle_image boot now gen dl wk d msg"
  let ?uid = "tg_id (from_user msg)"
  let ?d1 = "exist_user_check boot d (from_user msg)"
  let ?P = "\<lambda>x. map input_image_name (image_names x)
                  = map input_image_name (image_names d) @
                    [gen (if receive_target_flag usr \<noteq> 0 then ''target_images'' else ''original'')]
              \<and> map_option last_photo_sent_timestamp (find_user (users x) ?uid) = Some now"
  define ip where
    "ip = gen (if receive_target_flag usr \<noteq> 0 then ''target_images'' else ''original'')"
  define d2 where "d2 = update_photo_timestamp ?d1 (user_id usr) now"
  define d3 where "d3 = log_input_image_data boot now d2 msg ip"
  define d4 where "d4 = snd (target_image_check d3 usr ip)"
  have uid: "user_id usr = ?uid" using f find_user_id by (simp add: fetch_user_data_def)
  have f1: "find_user (users ?d1) ?uid = Some usr" using f by (simp add: fetch_user_data_def)
  have s2: "find_user (users d2) ?uid = Some (usr\<lparr>last_photo_sent_timestamp := now\<rparr>)"
    using f1 uid by (simp add: d2_def update_photo_timestamp_def find_update_user)
  have s3: "map_option last_photo_sent_timestamp (find_user (users d3) ?uid) = Some now"
    using stamp_exist_user_check [of d2 ?uid boot "from_user msg"] s2
    by (simp add: d3_def log_input_image_data_def create_image_entry_def)
  have n3: "image_names d3 = image_names d @
      [\<lparr>img_user_id = ?uid, input_image_name = ip, output_image_names = None,
        img_timestamp = now\<rparr>]"
    by (simp add: d3_def d2_def log_input_image_data_def create_image_entry_def
          tables_exist_user_check update_photo_timestamp_def)
  have p3: "?P d3" using s3 n3 by (simp add: ip_def)
  have p4: "?P d4"
    using p3 uid
    by (auto simp: d4_def target_image_check_def toggle_receive_target_flag_def
          update_user_mode_def find_update_user)
  have p5: "\<And>d5 paths. log_output_image_data boot now d4 msg ip paths = Some d5 \<Longrightarrow> ?P d5"
  proof -
    fix d5 paths
    assume lo: "log_output_image_data boot now d4 msg ip paths = Some d5"
    let ?e = "exist_user_check boot d4 (from_user msg)"
    have ex: "find_user (users d4) ?uid \<noteq> None" using p4 by (cases "find_user (users d4) ?uid") auto
    have "users d5 = users ?e" "map input_image_name (image_names d5)
        = map input_image_name (image_names ?e)"
      using lo users_update_image_entry names_update_image_entry
      by (simp_all add: log_output_image_data_def)
    then show "?P d5"
      using p4 stamp_exist_user_check [OF ex, of boot "from_user msg"]
      by (simp add: tables_exist_user_check)
  qed
  have p6: "\<And>d5 k n. ?P d5 \<Longrightarrow> ?P (fst (decrement_requests_left d5 k n))"
    by (simp add: stamp_decrement) (simp add: decrement_requests_left_def)
  from handle_image_shape [where gen = gen and dl = dl and wk = wk,
         OF f g1 g2 ip_def d3_def [unfolded d2_def] d4_def]
  consider "out_db ?H = d3" | "out_db ?H = d4"
    | d5 paths where "log_output_image_data boot now d4 msg ip paths = Some d5"
        "out_db ?H = d5"
    | d5 paths k n where "log_output_image_data boot now d4 msg ip paths = Some d5"
        "out_db ?H = fst (decrement_requests_left d5 k n)"
    by blast
  then show ?thesis
  proof cases
    case 1
    then show ?thesis using p3 by simp
  next
    case 2
    then show ?thesis using p4 by simp
  next
    case 3
    then show ?thesis using p5 by simp
  next
    case 4
    then show ?thesis using p5 [OF 4(1)] p6 [of d5 k n] by simp
  qed
qed

section \<open>Who sets the flag, and what it does\<close>








section \<open>Rate limiting\<close>

text \<open>
  A photo of the user was accepted at second 100. Two single photos follow, half a second
  and one and a half seconds after it, one second apart: both are rejected.
\<close>

theorem two_photos_both_rejected_counterexample:
  "recent_sent 1 = Some (seconds 100)
   \<and> \<not> fst (prevent_multisending (seconds 100 + 500000) recent_sent photo)
   \<and> \<not> fst (prevent_multisending (seconds 100 + 500000 + seconds 1)
              (snd (prevent_multisending (seconds 100 + 500000) recent_sent photo)) photo)"
  by (simp add: recent_sent_def prevent_multisending_def photo_def alice_def seconds_def
        DELAY_BETWEEN_IMAGES_def Let_def)

text \<open>
  C7 (amended). A photo of a media group is always rejected by \<open>prevent_multisending\<close>,
  and a photo it rejects is answered with the one-at-a-time notice and changes nothing; a
  photo it accepts is recorded in \<open>SENT_TIME\<close> and handed to \<open>handle_image\<close>. With
  \<open>DELAY_BETWEEN_IMAGES = 2\<close>, a single photo is accepted exactly when the user's last
  accepted photo, if any, is at least 2 seconds old; of two single photos of one user one
  second apart never both are accepted, and one of them is accepted exactly when that last
  accepted photo, if any, lies at least 1 second before the first of the two (otherwise
  both are rejected). The gate of 20 seconds since \<open>last_photo_sent_timestamp\<close> always
  passes for a premium user and passes for any other user exactly when 20 seconds have
  elapsed. A photo is processed (its image record created, \<open>last_photo_sent_timestamp\<close>
  set to the time of the photo) exactly when \<open>prevent_multisending\<close> accepts it, the user
  has requests left and the time gate passes; otherwise there is no worker call, no image
  record, and the user's row is as it was.
\<close>

theorem rate_limit_gates:
  "(media_group_id msg \<noteq> None \<longrightarrow> \<not> fst (prevent_multisending now sent msg))
   \<and> (\<not> fst (prevent_multisending now sent msg) \<longrightarrow>
      image_handler boot now gen dl wk sent d msg
        = (sent, \<lparr>out_db = d, replies = [OneAtATime], posts = [], uncaught = False\<rparr>))
   \<and> (fst (prevent_multisending now sent msg) \<longrightarrow>
      image_handler boot now gen dl wk sent d msg
        = (sent(tg_id (from_user msg) \<mapsto> now), handle_image boot now gen dl wk d msg))
   \<and> DELAY_BETWEEN_IMAGES = 2
   \<and> (media_group_id msg = None \<longrightarrow>
        fst (prevent_multisending t sent msg)
          = (case sent (tg_id (from_user msg)) of None \<Rightarrow> True
             | Some l \<Rightarrow> seconds 2 \<le> t - l)
        \<and> \<not> (fst (prevent_multisending t sent msg)
              \<and> fst (prevent_multisending (t + seconds 1)
                      (snd (prevent_multisending t sent msg)) msg))
        \<and> (fst (prevent_multisending t sent msg)
              \<or> fst (prevent_multisending (t + seconds 1)
                      (snd (prevent_multisending t sent msg)) msg))
          = (case sent (tg_id (from_user msg)) of None \<Rightarrow> True
             | Some l \<Rightarrow> seconds 1 \<le> t - l))
   \<and> (status u = ''premium'' \<longrightarrow> check_time_limit now u 20 = (True, []))
   \<and> (status u \<noteq> ''premium'' \<longrightarrow>
        fst (check_time_limit now u 20) = (seconds 20 \<le> now - last_photo_sent_timestamp u))
   \<and> (find_user (users (exist_user_check boot d (from_user msg))) (tg_id (from_user msg))
         = Some v \<longrightarrow>
       (if fst (prevent_multisending now sent msg) \<and> 0 < requests_left v
            \<and> fst (check_time_limit now v 20)
        then map input_image_name
               (image_names (out_db (snd (image_handler boot now gen dl wk sent d msg))))
             = map input_image_name (image_names d) @
               [gen (if receive_target_flag v \<noteq> 0 then ''target_images'' else ''original'')]
           \<and> map_option last_photo_sent_timestamp
               (find_user (users (out_db (snd (image_handler boot now gen dl wk sent d msg))))
                  (tg_id (from_user msg))) = Some now
        else posts (snd (image_handler boot now gen dl wk sent d msg)) = []
           \<and> image_names (out_db (snd (image_handler boot now gen dl wk sent d msg)))
               = image_names d
           \<and> find_user (users (out_db (snd (image_handler boot now gen dl wk sent d msg))))
               (tg_id (from_user msg))
             = (if fst (prevent_multisending now sent msg) then Some v
                else find_user (users d) (tg_id (from_user msg)))))"
proof -
  let ?uid = "tg_id (from_user msg)"
  let ?ih = "image_handler boot now gen dl wk sent d msg"
  have a: "media_group_id msg \<noteq> None \<longrightarrow> \<not> fst (prevent_multisending now sent msg)"
    by (simp add: prevent_multisending_def Let_def)
  have b: "\<not> fst (prevent_multisending now sent msg) \<longrightarrow>
      ?ih = (sent, \<lparr>out_db = d, replies = [OneAtATime], posts = [], uncaught = False\<rparr>)"
    by (auto simp: image_handler_def prevent_multisending_def Let_def split: option.splits)
  have c: "fst (prevent_multisending now sent msg) \<longrightarrow>
      ?ih = (sent(?uid \<mapsto> now), handle_image boot now gen dl wk d msg)"
    by (auto simp: image_handler_def prevent_multisending_def Let_def split: option.splits)
  have e: "media_group_id msg = None \<longrightarrow>
        fst (prevent_multisending t sent msg)
          = (case sent ?uid of None \<Rightarrow> True | Some l \<Rightarrow> seconds 2 \<le> t - l)
        \<and> \<not> (fst (prevent_multisending t sent msg)
              \<and> fst (prevent_multisending (t + seconds 1)
                      (snd (prevent_multisending t sent msg)) msg))
        \<and> (fst (prevent_multisending t sent msg)
              \<or> fst (prevent_multisending (t + seconds 1)
                      (snd (prevent_multisending t sent msg)) msg))
          = (case sent ?uid of None \<Rightarrow> True | Some l \<Rightarrow> seconds 1 \<le> t - l)"
    by (auto simp: prevent_multisending_def Let_def DELAY_BETWEEN_IMAGES_def seconds_def
          split: option.splits)
  have f: "status u = ''premium'' \<longrightarrow> check_time_limit now u 20 = (True, [])"
    by (simp add: check_time_limit_def)
  have g: "status u \<noteq> ''premium'' \<longrightarrow>
        fst (check_time_limit now u 20) = (seconds 20 \<le> now - last_photo_sent_timestamp u)"
    by (auto simp: check_time_limit_def)
  have h: "find_user (users (exist_user_check boot d (from_user msg))) ?uid = Some v \<longrightarrow>
       (if fst (prevent_multisending now sent msg) \<and> 0 < requests_left v
            \<and> fst (check_time_limit now v 20)
        then map input_image_name (image_names (out_db (snd ?ih)))
             = map input_image_name (image_names d) @
               [gen (if receive_target_flag v \<noteq> 0 then ''target_images'' else ''original'')]
           \<and> map_option last_photo_sent_timestamp
               (find_user (users (out_db (snd ?ih))) ?uid) = Some now
        else posts (snd ?ih) = []
           \<and> image_names (out_db (snd ?ih)) = image_names d
           \<and> find_user (users (out_db (snd ?ih))) ?uid
             = (if fst (prevent_multisending now sent msg) then Some v
                else find_user (users d) ?uid))"
  proof
    assume v: "find_user (users (exist_user_check boot d (from_user msg))) ?uid = Some v"
    then have fv: "fetch_user_data (exist_user_check boot d (from_user msg)) ?uid = Some v"
      by (simp add: fetch_user_data_def)
    show "if fst (prevent_multisending now sent msg) \<and> 0 < requests_left v
            \<and> fst (check_time_limit now v 20)
        then map input_image_name (image_names (out_db (snd ?ih)))
             = map input_image_name (image_names d) @
               [gen (if receive_target_flag v \<noteq> 0 then ''target_images'' else ''original'')]
           \<and> map_option last_photo_sent_timestamp
               (find_user (users (out_db (snd ?ih))) ?uid) = Some now
        else posts (snd ?ih) = []
           \<and> image_names (out_db (snd ?ih)) = image_names d
           \<and> find_user (users (out_db (snd ?ih))) ?uid
             = (if fst (prevent_multisending now sent msg) then Some v
                else find_user (users d) ?uid)"
    proof (cases "fst (prevent_multisending now sent msg)")
      case False
      then show ?thesis using b by simp
    next
      case True
      then have ih: "snd ?ih = handle_image boot now gen dl wk d msg" using c by simp
      show ?thesis
      proof (cases "0 < requests_left v \<and> fst (check_time_limit now v 20)")
        case True
        then show ?thesis
          using handle_image_accepted [OF fv, of now gen dl wk] \<open>fst (prevent_multisending now sent msg)\<close> ih
          by (simp add: check_limit_def)
      next
        case False
        then have "\<not> (fst (check_limit v) \<and> fst (check_time_limit now v 20))"
          by (auto simp: check_limit_def)
        from handle_image_gate_fail [OF fv this, of gen dl wk]
        show ?thesis
          using False \<open>fst (prevent_multisending now sent msg)\<close> ih v
          by (auto simp: tables_exist_user_check)
      qed
    qed
  qed
  have dly: "DELAY_BETWEEN_IMAGES = 2" by (simp add: DELAY_BETWEEN_IMAGES_def)
  show ?thesis by (intro conjI a b c dly e f g h)
qed


theorem rate_limit_gates_witness:
  "\<not> fst (prevent_multisending (seconds 100) Map.empty album)
   \<and> image_handler 0 (seconds 100) gen_example (GetResponse 200 True) three_faces Map.empty
        fresh_db album
     = (Map.empty, \<lparr>out_db = fresh_db, replies = [OneAtATime], posts = [], uncaught = False\<rparr>)
   \<and> image_handler 0 (seconds 100) gen_example (GetResponse 200 True) three_faces Map.empty
        fresh_db photo
     = (recent_sent,
        handle_image 0 (seconds 100) gen_example (GetResponse 200 True) three_faces
          fresh_db photo)
   \<and> fst (prevent_multisending (seconds 100) Map.empty photo)
   \<and> \<not> fst (prevent_multisending (seconds 100 + seconds 1)
              (snd (prevent_multisending (seconds 100) Map.empty photo)) photo)
   \<and> check_time_limit (seconds 5) premium_alice 20 = (True, [])
   \<and> \<not> fst (check_time_limit (seconds 5) fresh_alice 20)
   \<and> map_option last_photo_sent_timestamp
        (find_user (users (out_db (snd (image_handler 0 (seconds 100) gen_example
           (GetResponse 200 True) three_faces Map.empty fresh_db photo)))) 1)
      = Some (seconds 100)
   \<and> posts (snd (image_handler 0 (seconds 5) gen_example (GetResponse 200 True) three_faces
        Map.empty fresh_db photo)) = []"
proof -
  have a: "media_group_id album \<noteq> None" "media_group_id photo = None"
    by (simp_all add: album_def photo_def)
  have i: "tg_id (from_user photo) = 1" by (simp add: photo_def alice_def)
  have st: "status premium_alice = ''premium''" "status fresh_alice \<noteq> ''premium''"
    "last_photo_sent_timestamp fresh_alice = 0" "0 < requests_left fresh_alice"
    by (simp_all add: premium_alice_def fresh_alice_def)
  have f: "find_user (users (exist_user_check 0 fresh_db (from_user photo)))
             (tg_id (from_user photo)) = Some fresh_alice"
    by code_simp
  have s: "\<not> seconds 20 \<le> seconds 5" "seconds 20 \<le> seconds 100"
    by (simp_all add: seconds_def)
  have e: "(Map.empty :: int \<rightharpoonup> time) 1 = None" by simp
  have p: "fst (prevent_multisending (seconds 100) Map.empty photo)"
    "fst (prevent_multisending (seconds 5) Map.empty photo)"
    by (simp_all add: prevent_multisending_def a)
  have r: "recent_sent = Map.empty(1 \<mapsto> seconds 100)"
    by (simp add: recent_sent_def prevent_multisending_def a i)
  note A = rate_limit_gates [where msg = album and boot = 0 and now = "seconds 100"
            and gen = gen_example and dl = "GetResponse 200 True" and wk = three_faces
            and sent = Map.empty and d = fresh_db]
  note P = rate_limit_gates [where msg = photo and t = "seconds 100" and sent = Map.empty
            and boot = 0 and now = "seconds 100" and gen = gen_example
            and dl = "GetResponse 200 True" and wk = three_faces and d = fresh_db
            and v = fresh_alice and u = fresh_alice]
  note Q = rate_limit_gates [where now = "seconds 5" and u = fresh_alice and v = fresh_alice
            and msg = photo and boot = 0 and d = fresh_db and sent = Map.empty
            and gen = gen_example and dl = "GetResponse 200 True" and wk = three_faces]
  note R = rate_limit_gates [where now = "seconds 5" and u = premium_alice]
  note c2 = conjunct2
  have w1: "\<not> fst (prevent_multisending (seconds 100) Map.empty album)"
    using A [THEN conjunct1] a by simp
  have w2: "image_handler 0 (seconds 100) gen_example (GetResponse 200 True) three_faces
        Map.empty fresh_db album
     = (Map.empty, \<lparr>out_db = fresh_db, replies = [OneAtATime], posts = [], uncaught = False\<rparr>)"
    using A [THEN c2, THEN conjunct1] w1 by simp
  have w3: "image_handler 0 (seconds 100) gen_example (GetResponse 200 True) three_faces
        Map.empty fresh_db photo
     = (recent_sent,
        handle_image 0 (seconds 100) gen_example (GetResponse 200 True) three_faces
          fresh_db photo)"
    using P [THEN c2, THEN c2, THEN conjunct1] p r i by simp
  have w5: "\<not> fst (prevent_multisending (seconds 100 + seconds 1)
              (snd (prevent_multisending (seconds 100) Map.empty photo)) photo)"
    using P [THEN c2, THEN c2, THEN c2, THEN c2, THEN conjunct1] a p by simp
  have w6: "check_time_limit (seconds 5) premium_alice 20 = (True, [])"
    using R [THEN c2, THEN c2, THEN c2, THEN c2, THEN c2, THEN conjunct1] st by simp
  have w7: "\<not> fst (check_time_limit (seconds 5) fresh_alice 20)"
    using Q [THEN c2, THEN c2, THEN c2, THEN c2, THEN c2, THEN c2, THEN conjunct1] st s
    by simp
  have g100: "fst (check_time_limit (seconds 100) fresh_alice 20)"
    using P [THEN c2, THEN c2, THEN c2, THEN c2, THEN c2, THEN c2, THEN conjunct1] st s
    by simp
  have w8: "map_option last_photo_sent_timestamp
        (find_user (users (out_db (snd (image_handler 0 (seconds 100) gen_example
           (GetResponse 200 True) three_faces Map.empty fresh_db photo)))) 1)
      = Some (seconds 100)"
    using P [THEN c2, THEN c2, THEN c2, THEN c2, THEN c2, THEN c2, THEN c2] f p g100 st i
    by simp
  have w9: "posts (snd (image_handler 0 (seconds 5) gen_example (GetResponse 200 True)
        three_faces Map.empty fresh_db photo)) = []"
    using Q [THEN c2, THEN c2, THEN c2, THEN c2, THEN c2, THEN c2, THEN c2] f w7
    by simp
  show ?thesis using w1 w2 w3 p(1) w5 w6 w7 w8 w9 by simp
qed

section \<open>A successful worker response\<close>

lemma map_fresh:
  "filter P xs = [] \<Longrightarrow> map (\<lambda>e. if P e then f e else e) xs = xs"
  by (induction xs) (auto split: if_splits)

lemma update_image_entry_fresh:
  assumes "filter (\<lambda>e. img_user_id e = uid \<and> input_image_name e = inp) rows = []"
    and "image_names d = rows @ [\<lparr>img_user_id = uid, input_image_name = inp,
            output_image_names = None, img_timestamp = t0\<rparr>]"
  shows "update_image_entry now d uid inp outs =
    Some (d\<lparr>image_names := rows @ [\<lparr>img_user_id = uid, input_image_name = inp,
            output_image_names = (if outs \<noteq> [] then Some (join_comma outs) else None),
            img_timestamp = now\<rparr>]\<rparr>)"
  using assms map_fresh [of "\<lambda>e. img_user_id e = uid \<and> input_image_name e = inp" rows]
  by (simp add: update_image_entry_def Let_def)

lemma success_fresh:
  assumes "find_user (users d) (tg_id (from_user msg)) = Some u"
    and "0 < requests_left u"
    and "status u = ''premium'' \<or> seconds 20 \<le> now - last_photo_sent_timestamp u"
    and "\<not> (status u = ''premium'' \<and> receive_target_flag u \<noteq> 0)"
    and "dl = GetResponse 200 True"
    and "wk = PostResponse 200 image_paths"
    and "filter (\<lambda>e. img_user_id e = tg_id (from_user msg) \<and> input_image_name e =
            gen (if receive_target_flag u \<noteq> 0 then ''target_images'' else ''original''))
           (image_names d) = []"
  shows "replies (handle_image boot now gen dl wk d msg)
           = ImageReceived # map Photo image_paths @
             [AttemptsLeft (max 0 (requests_left u - int (length image_paths)))]
    \<and> map_option requests_left
         (find_user (users (out_db (handle_image boot now gen dl wk d msg)))
            (tg_id (from_user msg)))
        = Some (max 0 (requests_left u - int (length image_paths)))
    \<and> image_names (out_db (handle_image boot now gen dl wk d msg))
        = image_names d @
          [\<lparr>img_user_id = tg_id (from_user msg),
            input_image_name =
              gen (if receive_target_flag u \<noteq> 0 then ''target_images'' else ''original''),
            output_image_names =
              (if image_paths \<noteq> [] then Some (join_comma image_paths) else None),
            img_timestamp = now\<rparr>]"
proof -
  let ?uid = "tg_id (from_user msg)"
  define ip where
    "ip = gen (if receive_target_flag u \<noteq> 0 then ''target_images'' else ''original'')"
  let ?d1 = "exist_user_check boot d (from_user msg)"
  let ?d2 = "update_photo_timestamp ?d1 ?uid now"
  let ?d3 = "log_input_image_data boot now ?d2 msg ip"
  let ?d4 = "exist_user_check boot ?d3 (from_user msg)"
  let ?row = "\<lambda>out t. \<lparr>img_user_id = ?uid, input_image_name = ip, output_image_names = out,
                        img_timestamp = t\<rparr>"
  let ?outs = "if image_paths \<noteq> [] then Some (join_comma image_paths) else None"
  let ?d5 = "?d4\<lparr>image_names := image_names d @ [?row ?outs now]\<rparr>"
  obtain u1 where u1: "find_user (users ?d1) ?uid = Some u1"
    and same: "status u1 = status u" "receive_target_flag u1 = receive_target_flag u"
      "requests_left u1 = requests_left u" "user_id u1 = ?uid"
      "last_photo_sent_timestamp u1 = last_photo_sent_timestamp u"
    using find_exist_user_check [OF assms(1), of boot] find_user_id [OF assms(1)] by simp
  have ip1: "gen (if receive_target_flag u1 \<noteq> 0 then ''target_images'' else ''original'') = ip"
    using same(2) by (simp add: ip_def)
  have cl: "check_limit u1 = (True, [])"
    using assms(2) same(3) by (simp add: check_limit_def)
  have ct: "check_time_limit now u1 20 = (True, [])"
    using assms(3) same(1,5) by (auto simp: check_time_limit_def)
  have tc: "\<And>dx p. target_image_check dx u1 p = (None, dx)"
    using assms(4) same(1,2) by (auto simp: target_image_check_def)
  have u4: "map_option requests_left (find_user (users ?d4) ?uid) = Some (requests_left u)"
    using u1 same(3,4)
    by (simp add: log_input_image_data_def create_image_entry_def update_photo_timestamp_def
          exist_user_check_def insert_user_def find_update_user)
  then obtain u4 where u4': "find_user (users ?d4) ?uid = Some u4"
    and r4: "requests_left u4 = requests_left u" and id4: "user_id u4 = ?uid"
    using find_user_id by fastforce
  have img3: "image_names ?d4 = image_names d @ [?row None now]"
    by (simp add: tables_exist_user_check log_input_image_data_def create_image_entry_def
          update_photo_timestamp_def)
  have fresh: "filter (\<lambda>e. img_user_id e = ?uid \<and> input_image_name e = ip) (image_names d) = []"
    using assms(7) by (simp add: ip_def)
  have upd: "update_image_entry now ?d4 ?uid ip image_paths = Some ?d5"
    using update_image_entry_fresh [OF fresh img3] .
  have u5: "find_user (users ?d5) ?uid = Some u4" using u4' by simp
  have loop: "send_outputs ?d5 ?uid u1 [] image_paths =
      Completed (if image_paths = [] then u1 else u4) (map Photo image_paths)"
    using send_outputs_all [OF u5, of u1 "[]" image_paths] assms(2) r4 by simp
  have last_usr: "user_id (if image_paths = [] then u1 else u4) = ?uid"
    "requests_left (if image_paths = [] then u1 else u4) = requests_left u"
    using same(3,4) id4 r4 by simp_all
  have hi: "handle_image boot now gen dl wk d msg =
      \<lparr>out_db = fst (decrement_requests_left ?d5 ?uid (int (length image_paths))),
       replies = ImageReceived # map Photo image_paths @
          [AttemptsLeft (max 0 (requests_left u - int (length image_paths)))],
       posts = [(ip, mode u1)], uncaught = False\<rparr>"
    using u1 assms(5,6)
    by (simp add: handle_image_def Let_def fetch_user_data_def truthy_def
          log_output_image_data_def cl ct tc ip1 same(4) upd loop last_usr)
  have fin: "map_option requests_left
      (find_user (users (fst (decrement_requests_left ?d5 ?uid (int (length image_paths))))) ?uid)
      = Some (max 0 (requests_left u - int (length image_paths)))"
    using u5 r4 assms(2)
    by (simp add: decrement_requests_left_def find_update_user)
  have imgs: "image_names (fst (decrement_requests_left ?d5 ?uid (int (length image_paths))))
      = image_names d @ [?row ?outs now]"
    by (simp add: decrement_requests_left_def)
  show ?thesis
    unfolding hi using fin imgs by (simp add: ip_def)
qed


lemma send_outputs_closed:
  "send_outputs dx kx usrx accx (px # restx) =
     (case find_user (users dx) kx of
        None \<Rightarrow> Raised accx
      | Some fetched \<Rightarrow>
          if requests_left fetched \<le> 0 then Returned (accx @ [OutOfAttempts])
          else Completed fetched (accx @ map Photo (px # restx)))"
proof (cases "find_user (users dx) kx")
  case None
  then show ?thesis by (simp add: fetch_user_data_def)
next
  case (Some fetched)
  show ?thesis
  proof (cases "requests_left fetched \<le> 0")
    case True
    then show ?thesis using Some by (simp add: fetch_user_data_def check_limit_def)
  next
    case False
    then have "0 < requests_left fetched" by simp
    from send_outputs_all [OF Some this, of usrx accx "px # restx"]
    show ?thesis using Some False by simp
  qed
qed

lemma update_image_entry_twice:
  assumes "filter (\<lambda>e. img_user_id e = uid \<and> input_image_name e = inp) rows \<noteq> []"
    and "image_names d = rows @ [\<lparr>img_user_id = uid, input_image_name = inp,
            output_image_names = None, img_timestamp = t0\<rparr>]"
  shows "update_image_entry now d uid inp outs = None"
proof -
  let ?P = "\<lambda>e. img_user_id e = uid \<and> input_image_name e = inp"
  let ?row = "\<lparr>img_user_id = uid, input_image_name = inp, output_image_names = None,
                img_timestamp = t0\<rparr>"
  from assms(1) obtain y ys where "filter ?P rows = y # ys"
    by (cases "filter ?P rows") auto
  then have f: "filter ?P (image_names d) = y # ys @ [?row]"
    using assms(2) by simp
  obtain z zs where "ys @ [?row] = z # zs" by (cases ys) auto
  with f have "filter ?P (image_names d) = y # z # zs" by simp
  then show ?thesis by (simp add: update_image_entry_def Let_def)
qed

lemma success_not_fresh:
  assumes "find_user (users d) (tg_id (from_user msg)) = Some u"
    and "0 < requests_left u"
    and "status u = ''premium'' \<or> seconds 20 \<le> now - last_photo_sent_timestamp u"
    and "\<not> (status u = ''premium'' \<and> receive_target_flag u \<noteq> 0)"
    and "dl = GetResponse 200 True"
    and "wk = PostResponse 200 image_paths"
    and "filter (\<lambda>e. img_user_id e = tg_id (from_user msg) \<and> input_image_name e =
            gen (if receive_target_flag u \<noteq> 0 then ''target_images'' else ''original''))
           (image_names d) \<noteq> []"
  shows "replies (handle_image boot now gen dl wk d msg) = [ImageReceived, SorryError]
    \<and> map_option requests_left
         (find_user (users (out_db (handle_image boot now gen dl wk d msg)))
            (tg_id (from_user msg)))
        = Some (requests_left u)
    \<and> image_names (out_db (handle_image boot now gen dl wk d msg))
        = image_names d @
          [\<lparr>img_user_id = tg_id (from_user msg),
            input_image_name =
              gen (if receive_target_flag u \<noteq> 0 then ''target_images'' else ''original''),
            output_image_names = None, img_timestamp = now\<rparr>]"
proof -
  let ?uid = "tg_id (from_user msg)"
  define ip where
    "ip = gen (if receive_target_flag u \<noteq> 0 then ''target_images'' else ''original'')"
  let ?d1 = "exist_user_check boot d (from_user msg)"
  let ?d2 = "update_photo_timestamp ?d1 ?uid now"
  let ?d3 = "log_input_image_data boot now ?d2 msg ip"
  let ?d4 = "exist_user_check boot ?d3 (from_user msg)"
  let ?row = "\<lparr>img_user_id = ?uid, input_image_name = ip, output_image_names = None,
                img_timestamp = now\<rparr>"
  obtain u1 where u1: "find_user (users ?d1) ?uid = Some u1"
    and same: "status u1 = status u" "receive_target_flag u1 = receive_target_flag u"
      "requests_left u1 = requests_left u" "user_id u1 = ?uid"
      "last_photo_sent_timestamp u1 = last_photo_sent_timestamp u"
    using find_exist_user_check [OF assms(1), of boot] find_user_id [OF assms(1)] by simp
  have ip1: "gen (if receive_target_flag u1 \<noteq> 0 then ''target_images'' else ''original'') = ip"
    using same(2) by (simp add: ip_def)
  have cl: "check_limit u1 = (True, [])"
    using assms(2) same(3) by (simp add: check_limit_def)
  have ct: "check_time_limit now u1 20 = (True, [])"
    using assms(3) same(1,5) by (auto simp: check_time_limit_def)
  have tc: "\<And>dx p. target_image_check dx u1 p = (None, dx)"
    using assms(4) same(1,2) by (auto simp: target_image_check_def)
  have u3: "map_option requests_left (find_user (users ?d3) ?uid) = Some (requests_left u)"
    using u1 same(3,4)
    by (simp add: log_input_image_data_def create_image_entry_def update_photo_timestamp_def
          exist_user_check_def insert_user_def find_update_user)
  have img4: "image_names ?d4 = image_names d @ [?row]"
    by (simp add: tables_exist_user_check log_input_image_data_def create_image_entry_def
          update_photo_timestamp_def)
  have img3: "image_names ?d3 = image_names d @ [?row]"
    by (simp add: tables_exist_user_check log_input_image_data_def create_image_entry_def
          update_photo_timestamp_def)
  have twice: "filter (\<lambda>e. img_user_id e = ?uid \<and> input_image_name e = ip) (image_names d) \<noteq> []"
    using assms(7) by (simp add: ip_def)
  have upd: "update_image_entry now ?d4 ?uid ip image_paths = None"
    using update_image_entry_twice [OF twice img4] .
  have hi: "handle_image boot now gen dl wk d msg =
      \<lparr>out_db = ?d3, replies = [ImageReceived, SorryError],
       posts = [(ip, mode u1)], uncaught = False\<rparr>"
    using u1 assms(5,6)
    by (simp add: handle_image_def Let_def fetch_user_data_def truthy_def
          log_output_image_data_def cl ct tc ip1 same(4) upd)
  show ?thesis
    unfolding hi using u3 img3 by (simp add: ip_def)
qed


text \<open>
  A free user with \<open>requests_left = 1\<close> sends a photo and the worker answers with
  three output paths: all three outputs are sent, not one, and the last reply states 0
  attempts left.
\<close>

theorem one_left_three_outputs_counterexample:
  "map_option requests_left (find_user (users one_left_db) 1) = Some 1
   \<and> replies (handle_image 0 (seconds 60) gen_example (GetResponse 200 True) three_faces
        one_left_db photo)
     = [ImageReceived, Photo ''temp/result/img_4711_0.png'',
        Photo ''temp/result/img_4711_1.png'', Photo ''temp/result/img_4711_2.png'',
        AttemptsLeft 0]
   \<and> photos_sent (replies (handle_image 0 (seconds 60) gen_example (GetResponse 200 True)
        three_faces one_left_db photo)) \<noteq> 1"
  by code_simp

text \<open>
  C1 (amended). A user with requests left sends a photo that passes the time gate, is
  downloaded and saved, and is not a target upload, and the worker answers 200 with a list
  of outputs. If no earlier image record of the user has the input name of this photo,
  the output list is stored in full in the photo's record, every output is sent, then
  \<open>requests_left\<close> becomes \<open>max 0 (requests_left - number of outputs)\<close> and the last
  reply states that count. If an earlier record has the same input name, storing the outputs
  raises: the reply is the generic error, nothing is sent, nothing is consumed, and the
  record stays without output. The loop over the outputs reads the user's row again
  before each output and stops with the out-of-attempts reply when the row has no requests
  left; since nothing is consumed inside the loop, each round reads what the first one read,
  so the loop sends either every output or none.
\<close>

theorem success_sends_all_outputs:
  assumes "find_user (users d) (tg_id (from_user msg)) = Some u"
    and "0 < requests_left u"
    and "status u = ''premium'' \<or> seconds 20 \<le> now - last_photo_sent_timestamp u"
    and "\<not> (status u = ''premium'' \<and> receive_target_flag u \<noteq> 0)"
    and "dl = GetResponse 200 True"
    and "wk = PostResponse 200 image_paths"
  shows
   "(filter (\<lambda>e. img_user_id e = tg_id (from_user msg) \<and> input_image_name e =
        gen (if receive_target_flag u \<noteq> 0 then ''target_images'' else ''original''))
      (image_names d) = [] \<longrightarrow>
      replies (handle_image boot now gen dl wk d msg)
        = ImageReceived # map Photo image_paths @
          [AttemptsLeft (max 0 (requests_left u - int (length image_paths)))]
      \<and> map_option requests_left
           (find_user (users (out_db (handle_image boot now gen dl wk d msg)))
              (tg_id (from_user msg)))
         = Some (max 0 (requests_left u - int (length image_paths)))
      \<and> image_names (out_db (handle_image boot now gen dl wk d msg))
         = image_names d @
           [\<lparr>img_user_id = tg_id (from_user msg),
             input_image_name =
               gen (if receive_target_flag u \<noteq> 0 then ''target_images'' else ''original''),
             output_image_names =
               (if image_paths \<noteq> [] then Some (join_comma image_paths) else None),
             img_timestamp = now\<rparr>])
    \<and> (filter (\<lambda>e. img_user_id e = tg_id (from_user msg) \<and> input_image_name e =
        gen (if receive_target_flag u \<noteq> 0 then ''target_images'' else ''original''))
      (image_names d) \<noteq> [] \<longrightarrow>
      replies (handle_image boot now gen dl wk d msg) = [ImageReceived, SorryError]
      \<and> map_option requests_left
           (find_user (users (out_db (handle_image boot now gen dl wk d msg)))
              (tg_id (from_user msg)))
         = Some (requests_left u)
      \<and> image_names (out_db (handle_image boot now gen dl wk d msg))
         = image_names d @
           [\<lparr>img_user_id = tg_id (from_user msg),
             input_image_name =
               gen (if receive_target_flag u \<noteq> 0 then ''target_images'' else ''original''),
             output_image_names = None, img_timestamp = now\<rparr>])
    \<and> send_outputs dx kx usrx accx (px # restx) =
        (case find_user (users dx) kx of
           None \<Rightarrow> Raised accx
         | Some fetched \<Rightarrow>
             if requests_left fetched \<le> 0 then Returned (accx @ [OutOfAttempts])
             else Completed fetched (accx @ map Photo (px # restx)))"
  using success_fresh [OF assms, of gen boot] success_not_fresh [OF assms, of gen boot]
        send_outputs_closed [of dx kx usrx accx px restx]
  by blast


theorem success_sends_all_outputs_witness:
  "replies (handle_image 0 (seconds 60) gen_example (GetResponse 200 True) three_faces
      one_left_db photo)
     = [ImageReceived, Photo ''temp/result/img_4711_0.png'',
        Photo ''temp/result/img_4711_1.png'', Photo ''temp/result/img_4711_2.png'',
        AttemptsLeft 0]
   \<and> map_option requests_left
       (find_user (users (out_db (handle_image 0 (seconds 60) gen_example
          (GetResponse 200 True) three_faces one_left_db photo))) 1) = Some 0
   \<and> map output_image_names
       (image_names (out_db (handle_image 0 (seconds 60) gen_example
          (GetResponse 200 True) three_faces one_left_db photo)))
     = [Some ''temp/result/img_4711_0.png,temp/result/img_4711_1.png,temp/result/img_4711_2.png'']
   \<and> replies (handle_image 0 (seconds 120) gen_example (GetResponse 200 True) three_faces
        failed_once_db photo) = [ImageReceived, SorryError]
   \<and> map_option requests_left
       (find_user (users (out_db (handle_image 0 (seconds 120) gen_example
          (GetResponse 200 True) three_faces failed_once_db photo))) 1) = Some 10
   \<and> send_outputs spent_db 1 fresh_alice [] [''temp/result/img_4711_0.png'',
        ''temp/result/img_4711_1.png''] = Returned [OutOfAttempts]"
proof -
  let ?paths = "[''temp/result/img_4711_0.png'', ''temp/result/img_4711_1.png'',
                 ''temp/result/img_4711_2.png'']"
  have i: "tg_id (from_user photo) = 1" by (simp add: photo_def alice_def)
  have wk: "three_faces = PostResponse 200 ?paths" by (simp add: three_faces_def)
  have u: "find_user (users one_left_db) (tg_id (from_user photo))
             = Some (fresh_alice\<lparr>requests_left := 1\<rparr>)"
    by code_simp
  have q: "0 < requests_left (fresh_alice\<lparr>requests_left := 1\<rparr>)"
    "requests_left (fresh_alice\<lparr>requests_left := 1\<rparr>) = 1"
    "receive_target_flag (fresh_alice\<lparr>requests_left := 1\<rparr>) = 0"
    by (simp_all add: fresh_alice_def)
  have g: "status (fresh_alice\<lparr>requests_left := 1\<rparr>) = ''premium''
           \<or> seconds 20 \<le> seconds 60
                - last_photo_sent_timestamp (fresh_alice\<lparr>requests_left := 1\<rparr>)"
    by (simp add: fresh_alice_def seconds_def)
  have t: "\<not> (status (fresh_alice\<lparr>requests_left := 1\<rparr>) = ''premium''
              \<and> receive_target_flag (fresh_alice\<lparr>requests_left := 1\<rparr>) \<noteq> 0)"
    by (simp add: fresh_alice_def)
  have n: "image_names one_left_db = []" by code_simp
  note A = success_sends_all_outputs [OF u q(1) g t refl wk, where boot = 0
             and gen = gen_example]
  have a: "replies (handle_image 0 (seconds 60) gen_example (GetResponse 200 True) three_faces
      one_left_db photo)
     = [ImageReceived, Photo ''temp/result/img_4711_0.png'',
        Photo ''temp/result/img_4711_1.png'', Photo ''temp/result/img_4711_2.png'',
        AttemptsLeft 0]
   \<and> map_option requests_left
       (find_user (users (out_db (handle_image 0 (seconds 60) gen_example
          (GetResponse 200 True) three_faces one_left_db photo))) 1) = Some 0
   \<and> map output_image_names
       (image_names (out_db (handle_image 0 (seconds 60) gen_example
          (GetResponse 200 True) three_faces one_left_db photo)))
     = [Some ''temp/result/img_4711_0.png,temp/result/img_4711_1.png,temp/result/img_4711_2.png'']"
    using A [THEN conjunct1] n q i by simp
  define again where "again = fresh_alice\<lparr>last_photo_sent_timestamp := seconds 60\<rparr>"
  have u2: "find_user (users failed_once_db) (tg_id (from_user photo)) = Some again"
    unfolding again_def by code_simp
  have q2: "0 < requests_left again" "requests_left again = 10"
    "receive_target_flag again = 0"
    by (simp_all add: again_def fresh_alice_def)
  have g2: "status again = ''premium''
           \<or> seconds 20 \<le> seconds 120 - last_photo_sent_timestamp again"
    by (simp add: again_def seconds_def)
  have t2: "\<not> (status again = ''premium'' \<and> receive_target_flag again \<noteq> 0)"
    by (simp add: again_def fresh_alice_def)
  have n2: "filter (\<lambda>e. img_user_id e = 1 \<and> input_image_name e = gen_example ''original'')
              (image_names failed_once_db) \<noteq> []"
    by code_simp
  note B = success_sends_all_outputs [OF u2 q2(1) g2 t2 refl wk, where boot = 0
             and gen = gen_example]
  have b: "replies (handle_image 0 (seconds 120) gen_example (GetResponse 200 True) three_faces
        failed_once_db photo) = [ImageReceived, SorryError]
   \<and> map_option requests_left
       (find_user (users (out_db (handle_image 0 (seconds 120) gen_example
          (GetResponse 200 True) three_faces failed_once_db photo))) 1) = Some 10"
    using B [THEN conjunct2, THEN conjunct1] n2 q2 i by simp
  have f: "find_user (users spent_db) 1 = Some (fresh_alice\<lparr>requests_left := 0\<rparr>)"
    by code_simp
  have c: "send_outputs spent_db 1 fresh_alice [] [''temp/result/img_4711_0.png'',
        ''temp/result/img_4711_1.png''] = Returned [OutOfAttempts]"
    using A [where dx = spent_db and kx = 1
             and usrx = fresh_alice and accx = "[]"
             and px = "''temp/result/img_4711_0.png''"
             and restx = "[''temp/result/img_4711_1.png'']",
             THEN conjunct2, THEN conjunct2] f
    by simp
  show ?thesis using a b c by simp
qed

section \<open>A target upload without requests left\<close>

text \<open>
  A premium user with the flag set has used up her requests and uploads a photo: the reply
  is that she is out of attempts, the flag stays set and the mode is unchanged.
\<close>

theorem target_upload_out_of_attempts_counterexample:
  "map_option (\<lambda>u. (status u, receive_target_flag u, requests_left u))
     (find_user (users spent_waiting_db) 1) = Some (''premium'', 1, 0)
   \<and> replies (handle_image 0 (seconds 60) gen_example (GetResponse 200 True) three_faces
        spent_waiting_db photo) = [OutOfAttempts]
   \<and> map_option (\<lambda>u. (mode u, receive_target_flag u))
       (find_user (users (out_db (handle_image 0 (seconds 60) gen_example
          (GetResponse 200 True) three_faces spent_waiting_db photo))) 1) = Some (''1'', 1)"
  by code_simp

end
